theory Spec2Isabelle
  imports Complex_Main "HOL-Library.Word"
begin

section \<open>The driver boundary\<close>

text \<open>
  \<^verbatim>\<open>main.cpp\<close> drives the closed motor-control library (\<^verbatim>\<open>SysManager\<close>, \<^verbatim>\<open>IPort\<close>,
  \<^verbatim>\<open>INode\<close>, \<^verbatim>\<open>Axis\<close>) whose code is not part of the repository. The library is a
  parameter of the model: a \<open>world\<close> gives the values its accessors return and says, for
  every call and every history of the run so far, whether the call throws.

  An exception is either the structured \<^verbatim>\<open>mnErr\<close> (fields \<^verbatim>\<open>TheAddr\<close>, \<^verbatim>\<open>ErrorCode\<close>,
  \<^verbatim>\<open>ErrorMsg\<close>) or anything else, which only \<^verbatim>\<open>catch (...)\<close> catches.
\<close>

datatype exn = mnErr int int string | other_exception

text \<open>
  \<^verbatim>\<open>IInfo::nodeTypes\<close>: the two enumerators \<^verbatim>\<open>main\<close> names, and every other value of the
  enumeration (its declaration is in the library's headers).
\<close>

datatype nodeTypes = CLEARPATH_SC | CLEARPATH_SC_ADV | OTHER_NODE nat

record node =
  node_NodeType :: nodeTypes
  node_AccessLevelIsFull :: bool
  node_UserID :: string
  node_FirmwareVersion :: string
  node_HardwareVersion :: string
  node_SerialNumber :: int
  node_Model :: string

record port =
  port_NetNumber :: int
  port_OpenState :: int
  port_Nodes :: "node list"

text \<open>An \<^verbatim>\<open>Axis\<close> object is identified by the node it was constructed on: port and index.\<close>

datatype axis = Axis nat nat

text \<open>
  The calls into the library, named as in the source. Calls on a port carry the port's
  index, calls on a node the port's index and the node's.
\<close>

datatype drv_call =
    ComHubPort nat string
  | PortsOpen nat
  | Ports nat
  | NetNumber nat
  | OpenState nat
  | NodeCount nat
  | Nodes nat nat
  | NodeType nat nat
  | UserID nat nat
  | FirmwareVersion nat nat
  | HardwareVersion nat nat
  | SerialNumber nat nat
  | Model nat nat
  | new_Axis axis
  | AccessLevelIsFull nat nat
  | AxisMain axis
  | PortsClose

datatype stream = Stdout | Stderr

text \<open>The arguments of a \<^verbatim>\<open>printf\<close>: an integer, a string, or a node type printed by \<^verbatim>\<open>%d\<close>.\<close>

datatype arg = I int | S string | T nodeTypes

text \<open>
  What a run does, in order: calls into the library, \<^verbatim>\<open>delete\<close> of an axis, formatted
  output (the stream, the format string and its arguments) and \<^verbatim>\<open>getchar\<close>.
\<close>

datatype event =
    Call drv_call
  | Delete axis
  | Printf stream string "arg list"
  | Getchar

record world =
  sys_Ports :: "nat \<Rightarrow> port"
  throws :: "event list \<Rightarrow> drv_call \<Rightarrow> exn option"

section \<open>Computations: a trace and an exception or a value\<close>

type_synonym 'a comp = "event list \<Rightarrow> event list \<times> (exn + 'a)"

definition ret :: "'a \<Rightarrow> 'a comp" where
  "ret v tr = (tr, Inr v)"

text \<open>Sequencing: an exception of the first computation skips the rest.\<close>

definition bindC :: "'a comp \<Rightarrow> ('a \<Rightarrow> 'b comp) \<Rightarrow> 'b comp" where
  "bindC m f tr = (case m tr of (tr', Inl e) \<Rightarrow> (tr', Inl e) | (tr', Inr v) \<Rightarrow> f v tr')"

text \<open>
  A call into the library is recorded, then throws what the world says for this call after
  this history, or returns the value \<open>v\<close> the world holds for it.
\<close>

definition call :: "world \<Rightarrow> drv_call \<Rightarrow> 'a \<Rightarrow> 'a comp" where
  "call w c v tr =
     (tr @ [Call c], case throws w tr c of None \<Rightarrow> Inr v | Some e \<Rightarrow> Inl e)"

definition fprintf :: "stream \<Rightarrow> string \<Rightarrow> arg list \<Rightarrow> unit comp" where
  "fprintf f fmt args tr = (tr @ [Printf f fmt args], Inr ())"

definition getchar :: "unit comp" where
  "getchar tr = (tr @ [Getchar], Inr ())"

definition delete :: "axis \<Rightarrow> unit comp" where
  "delete a tr = (tr @ [Delete a], Inr ())"

lemma bindC_cong [fundef_cong]:
  "m tr = m' tr' \<Longrightarrow> (\<And>v tr1. m' tr' = (tr1, Inr v) \<Longrightarrow> f v tr1 = f' v tr1)
    \<Longrightarrow> bindC m f tr = bindC m' f' tr'"
  by (auto simp: bindC_def split: prod.splits sum.splits)

section \<open>main.cpp\<close>

text \<open>\<^verbatim>\<open>msgUser\<close>: send the message to \<^verbatim>\<open>std::cout\<close> and wait for a newline.\<close>

definition msgUser :: "string \<Rightarrow> unit comp" where
  "msgUser msg = bindC (fprintf Stdout msg []) (\<lambda>_. getchar)"

subsection \<open>InitializeSysManager\<close>

text \<open>
  The first loop (the branch compiled outside Windows):
  \<^verbatim>\<open>for (int iPort = 0; iPort < (int)numPorts; iPort++)\<close>, with \<^verbatim>\<open>numPorts\<close> an
  \<^verbatim>\<open>unsigned\<close>, read as a signed 32-bit value by the cast.
\<close>

function ComHubPort_loop :: "world \<Rightarrow> 32 word \<Rightarrow> string list \<Rightarrow> int \<Rightarrow> unit comp" where
  "ComHubPort_loop w numPorts listOfPorts iPort tr =
     (if iPort < sint numPorts then
        bindC (fprintf Stdout ''Initializing port %d, port number %s\<newline>''
                 [I iPort, S (listOfPorts ! nat iPort)]) (\<lambda>_.
        bindC (call w (ComHubPort (nat iPort) (listOfPorts ! nat iPort)) ()) (\<lambda>_.
        ComHubPort_loop w numPorts listOfPorts (iPort + 1))) tr
      else ret () tr)"
  by pat_completeness auto
termination
  by (relation "measure (\<lambda>(w, numPorts, listOfPorts, iPort, tr). nat (sint numPorts - iPort))")
    auto

text \<open>
  \<^verbatim>\<open>printf(" Port[%d]: state=%d, nodes=%d\n", myPort.NetNumber(), myPort.OpenState(),
  myPort.NodeCount())\<close>, which both \<^verbatim>\<open>InitializeSysManager\<close> and \<^verbatim>\<open>main\<close> contain. C++
  leaves the order of the three calls open; the model takes them from left to right.
\<close>

definition print_port :: "world \<Rightarrow> nat \<Rightarrow> port \<Rightarrow> unit comp" where
  "print_port w iPort myPort =
     bindC (call w (NetNumber iPort) (port_NetNumber myPort)) (\<lambda>net.
     bindC (call w (OpenState iPort) (port_OpenState myPort)) (\<lambda>state.
     bindC (call w (NodeCount iPort) (length (port_Nodes myPort))) (\<lambda>n.
     fprintf Stdout '' Port[%d]: state=%d, nodes=%d\<newline>'' [I net, I state, I (int n)])))"

text \<open>The statistics of one node: the body of the inner loop of \<^verbatim>\<open>InitializeSysManager\<close>.\<close>

definition print_node :: "world \<Rightarrow> nat \<Rightarrow> port \<Rightarrow> nat \<Rightarrow> unit comp" where
  "print_node w iPort myPort iNode =
     bindC (call w (Nodes iPort iNode) (port_Nodes myPort ! iNode)) (\<lambda>theNode.
     bindC (call w (NodeType iPort iNode) (node_NodeType theNode)) (\<lambda>t.
     bindC (fprintf Stdout ''   Node[%d]: type=%d\<newline>'' [I (int iNode), T t]) (\<lambda>_.
     bindC (call w (UserID iPort iNode) (node_UserID theNode)) (\<lambda>u.
     bindC (fprintf Stdout ''            userID: %s\<newline>'' [S u]) (\<lambda>_.
     bindC (call w (FirmwareVersion iPort iNode) (node_FirmwareVersion theNode)) (\<lambda>fw.
     bindC (fprintf Stdout ''        FW version: %s\<newline>'' [S fw]) (\<lambda>_.
     bindC (call w (HardwareVersion iPort iNode) (node_HardwareVersion theNode)) (\<lambda>hw.
     bindC (fprintf Stdout ''        HW version: %s\<newline>'' [S hw]) (\<lambda>_.
     bindC (call w (SerialNumber iPort iNode) (node_SerialNumber theNode)) (\<lambda>sn.
     bindC (fprintf Stdout ''          Serial #: %d\<newline>'' [I sn]) (\<lambda>_.
     bindC (call w (Model iPort iNode) (node_Model theNode)) (\<lambda>md.
     fprintf Stdout ''             Model: %s\<newline>'' [S md]))))))))))))"

text \<open>
  \<^verbatim>\<open>for (size_t iNode = 0; iNode < myPort.NodeCount(); iNode++)\<close>: the count is asked
  again before every round.
\<close>

function print_node_loop :: "world \<Rightarrow> nat \<Rightarrow> port \<Rightarrow> nat \<Rightarrow> unit comp" where
  "print_node_loop w iPort myPort iNode tr =
     bindC (call w (NodeCount iPort) (length (port_Nodes myPort))) (\<lambda>n.
       if iNode < n then
         bindC (print_node w iPort myPort iNode) (\<lambda>_.
         print_node_loop w iPort myPort (Suc iNode))
       else ret ()) tr"
  by pat_completeness auto
termination
  by (relation "measure (\<lambda>(w, iPort, myPort, iNode, tr). length (port_Nodes myPort) - iNode)")
    (auto simp: call_def split: option.splits)

text \<open>\<^verbatim>\<open>for (size_t iPort = 0; iPort < numPorts; iPort++)\<close> of the statistics.\<close>

function print_port_loop :: "world \<Rightarrow> 32 word \<Rightarrow> nat \<Rightarrow> unit comp" where
  "print_port_loop w numPorts iPort tr =
     (if iPort < unat numPorts then
        bindC (call w (Ports iPort) (sys_Ports w iPort)) (\<lambda>myPort.
        bindC (print_port w iPort myPort) (\<lambda>_.
        bindC (print_node_loop w iPort myPort 0) (\<lambda>_.
        print_port_loop w numPorts (Suc iPort)))) tr
      else ret () tr)"
  by pat_completeness auto
termination
  by (relation "measure (\<lambda>(w, numPorts, iPort, tr). unat numPorts - iPort)") auto

text \<open>
  The \<^verbatim>\<open>try\<close> block around \<^verbatim>\<open>PortsOpen\<close> and its handler \<^verbatim>\<open>catch (mnErr theErr)\<close>: a
  structured error is reported on both streams and becomes the result \<open>False\<close>; any other
  exception passes through.
\<close>

definition PortsOpen_try :: "world \<Rightarrow> 32 word \<Rightarrow> bool comp" where
  "PortsOpen_try w numPorts tr =
     (case bindC (fprintf Stdout ''Opening ports...\<newline>'' []) (\<lambda>_.
           bindC (call w (PortsOpen (unat numPorts)) ()) (\<lambda>_.
           fprintf Stdout ''  ... ports are open\<newline>'' [])) tr of
        (tr', Inr _) \<Rightarrow> (tr', Inr True)
      | (tr', Inl (mnErr TheAddr ErrorCode ErrorMsg)) \<Rightarrow>
          bindC (fprintf Stderr ''Error - Port setup issue\<newline>'' []) (\<lambda>_.
          bindC (fprintf Stderr '' Caught error: addr=%d, err=0x%0x\<newline>  msg=%s\<newline>''
                   [I TheAddr, I ErrorCode, S ErrorMsg]) (\<lambda>_.
          bindC (fprintf Stdout '' Caught error: addr=%d, err=0x%0x\<newline>  msg=%s\<newline>''
                   [I TheAddr, I ErrorCode, S ErrorMsg]) (\<lambda>_.
          ret False))) tr'
      | (tr', Inl other_exception) \<Rightarrow> (tr', Inl other_exception))"

definition InitializeSysManager ::
    "world \<Rightarrow> 32 word \<Rightarrow> string list \<Rightarrow> bool \<Rightarrow> bool comp" where
  "InitializeSysManager w numPorts listOfPorts printNodeStats =
     bindC (ComHubPort_loop w numPorts listOfPorts 0) (\<lambda>_.
     bindC (PortsOpen_try w numPorts) (\<lambda>opened.
     if \<not> opened then ret False
     else
       bindC (if printNodeStats then print_port_loop w numPorts 0 else ret ()) (\<lambda>_.
       ret True)))"

subsection \<open>main: checking the nodes\<close>

text \<open>The three variables the node loop of \<^verbatim>\<open>main\<close> updates.\<close>

record vars =
  listOfAxes :: "axis list"
  nodeTypesGood :: bool
  accessLvlsGood :: bool

text \<open>
  \<^verbatim>\<open>theNode.Info.NodeType() != IInfo::CLEARPATH_SC_ADV && theNode.Info.NodeType() !=
  IInfo::CLEARPATH_SC\<close>: the second call is made only when the first comparison holds.
\<close>

definition not_ClearPath :: "world \<Rightarrow> nat \<Rightarrow> nat \<Rightarrow> node \<Rightarrow> bool comp" where
  "not_ClearPath w iPort iNode theNode =
     bindC (call w (NodeType iPort iNode) (node_NodeType theNode)) (\<lambda>t1.
     if t1 \<noteq> CLEARPATH_SC_ADV then
       bindC (call w (NodeType iPort iNode) (node_NodeType theNode)) (\<lambda>t2.
       ret (t2 \<noteq> CLEARPATH_SC))
     else ret False)"

text \<open>The body of the node loop of \<^verbatim>\<open>main\<close>.\<close>

definition check_node :: "world \<Rightarrow> nat \<Rightarrow> port \<Rightarrow> nat \<Rightarrow> vars \<Rightarrow> vars comp" where
  "check_node w iPort myPort iNode v =
     bindC (call w (Nodes iPort iNode) (port_Nodes myPort ! iNode)) (\<lambda>theNode.
     bindC (not_ClearPath w iPort iNode theNode) (\<lambda>bad.
     bindC (if bad then
              bindC (fprintf Stdout
                       ''---> ERROR: Uh-oh! Node %d is not a ClearPath-SC Motor\<newline>''
                       [I (int iNode)]) (\<lambda>_.
              ret (v\<lparr>nodeTypesGood := False\<rparr>))
            else ret v) (\<lambda>v1.
     if nodeTypesGood v1 then
       bindC (call w (new_Axis (Axis iPort iNode)) ()) (\<lambda>_.
       bindC (ret (v1\<lparr>listOfAxes := listOfAxes v1 @ [Axis iPort iNode]\<rparr>)) (\<lambda>v2.
       bindC (call w (AccessLevelIsFull iPort iNode) (node_AccessLevelIsFull theNode)) (\<lambda>full.
       if \<not> full then
         bindC (fprintf Stdout
                  ''---> ERROR: Oh snap! Access level is not good for node %u\<newline>''
                  [I (int iNode)]) (\<lambda>_.
         ret (v2\<lparr>accessLvlsGood := False\<rparr>))
       else ret v2)))
     else ret v1)))"

text \<open>
  \<^verbatim>\<open>for (unsigned iNode = 0; iNode < myPort.NodeCount(); iNode++)\<close>. The count is asked
  again before every round. The index is a natural number: a port with \<open>2 ^ 32\<close> nodes or
  more, on which the \<^verbatim>\<open>unsigned\<close> would wrap, is outside the model.
\<close>

function check_node_loop :: "world \<Rightarrow> nat \<Rightarrow> port \<Rightarrow> nat \<Rightarrow> vars \<Rightarrow> vars comp" where
  "check_node_loop w iPort myPort iNode v tr =
     bindC (call w (NodeCount iPort) (length (port_Nodes myPort))) (\<lambda>n.
       if iNode < n then
         bindC (check_node w iPort myPort iNode v) (\<lambda>v'.
         check_node_loop w iPort myPort (Suc iNode) v')
       else ret v) tr"
  by pat_completeness auto
termination
  by (relation "measure (\<lambda>(w, iPort, myPort, iNode, v, tr). length (port_Nodes myPort) - iNode)")
    (auto simp: call_def split: option.splits)

text \<open>\<^verbatim>\<open>for (size_t iPort = 0; iPort < numPorts; iPort++)\<close> of \<^verbatim>\<open>main\<close>.\<close>

function check_port_loop :: "world \<Rightarrow> 32 word \<Rightarrow> nat \<Rightarrow> vars \<Rightarrow> vars comp" where
  "check_port_loop w numPorts iPort v tr =
     (if iPort < unat numPorts then
        bindC (call w (Ports iPort) (sys_Ports w iPort)) (\<lambda>myPort.
        bindC (print_port w iPort myPort) (\<lambda>_.
        bindC (check_node_loop w iPort myPort 0 v) (\<lambda>v'.
        check_port_loop w numPorts (Suc iPort) v'))) tr
      else ret v tr)"
  by pat_completeness auto
termination
  by (relation "measure (\<lambda>(w, numPorts, iPort, v, tr). unat numPorts - iPort)") auto

subsection \<open>main: running the axes, teardown\<close>

text \<open>
  \<^verbatim>\<open>for (Uint16 iAxis = 0; iAxis < listOfAxes.size(); iAxis++)
  listOfAxes.at(iAxis)->AxisMain();\<close> The counter has 16 bits and wraps around, so on a
  list of 65536 axes or more the loop does not end by itself: the model is partial, and
  \<open>None\<close> stands for a run that never returns.
\<close>

partial_function (option) AxisMain_loop ::
    "world \<Rightarrow> axis list \<Rightarrow> 16 word \<Rightarrow> event list \<Rightarrow> (event list \<times> (exn + unit)) option" where
  "AxisMain_loop w axes iAxis tr =
     (if unat iAxis < length axes then
        (case call w (AxisMain (axes ! unat iAxis)) () tr of
           (tr', Inl e) \<Rightarrow> Some (tr', Inl e)
         | (tr', Inr _) \<Rightarrow> AxisMain_loop w axes (iAxis + 1) tr')
      else Some (tr, Inr ()))"

declare AxisMain_loop.simps [code]

text \<open>
  \<^verbatim>\<open>for (size_t iAxis = 0; iAxis < listOfAxes.size(); iAxis++) delete listOfAxes.at(iAxis);\<close>
  The index runs through the whole vector, front to back.
\<close>

fun delete_loop :: "axis list \<Rightarrow> unit comp" where
  "delete_loop [] = ret ()"
| "delete_loop (a # axes) = bindC (delete a) (\<lambda>_. delete_loop axes)"

text \<open>\<^verbatim>\<open>for (int i = 0; i < argc; i++) printf("%s ", argv[i]);\<close>\<close>

fun print_args :: "string list \<Rightarrow> unit comp" where
  "print_args [] = ret ()"
| "print_args (a # as) = bindC (fprintf Stdout ''%s '' [S a]) (\<lambda>_. print_args as)"

text \<open>
  The \<^verbatim>\<open>if (nodeTypesGood && accessLvlsGood) ... else ...\<close> of \<^verbatim>\<open>main\<close>; the result is
  \<^verbatim>\<open>returnVal\<close>.
\<close>

definition run_or_report ::
    "world \<Rightarrow> vars \<Rightarrow> int \<Rightarrow> event list \<Rightarrow> (event list \<times> (exn + int)) option" where
  "run_or_report w v returnVal tr =
     (if nodeTypesGood v \<and> accessLvlsGood v then
        (case AxisMain_loop w (listOfAxes v) 0 tr of
           None \<Rightarrow> None
         | Some (tr', Inl e) \<Rightarrow> Some (tr', Inl e)
         | Some (tr', Inr _) \<Rightarrow> Some (tr', Inr returnVal))
      else if \<not> nodeTypesGood v then
        Some (bindC (fprintf Stdout
                (''\<newline>'' @ [CHR 0x09] @
                 ''FAILURE: Please attach only ClearPath-SC nodes.\<newline>\<newline>'') [])
              (\<lambda>_. ret (- 5)) tr)
      else if \<not> accessLvlsGood v then
        Some (bindC (fprintf Stdout
                (''\<newline>'' @ [CHR 0x09] @
                 ''FAILURE: Please get full access on all your nodes.\<newline>\<newline>'') [])
              (\<lambda>_. ret (- 6)) tr)
      else Some (tr, Inr returnVal))"

text \<open>The end of the \<^verbatim>\<open>try\<close> block: delete the axes, then close the ports.\<close>

definition teardown :: "world \<Rightarrow> axis list \<Rightarrow> unit comp" where
  "teardown w axes = bindC (delete_loop axes) (\<lambda>_. call w PortsClose ())"

text \<open>
  How the \<^verbatim>\<open>try\<close> block of \<^verbatim>\<open>main\<close> ends when no exception leaves it: by a \<^verbatim>\<open>return\<close>
  statement inside it, or at its end with the value of \<^verbatim>\<open>returnVal\<close>.
\<close>

datatype flow = Returned int | Completed int

definition main_try ::
    "world \<Rightarrow> string list \<Rightarrow> event list \<Rightarrow> (event list \<times> (exn + flow)) option" where
  "main_try w argv tr =
     (let argc = int (length argv) in
      if argc \<noteq> 2 then
        Some (bindC (fprintf Stdout '' USAGE: Example-SingleThreaded.exe <Port#>\<newline>'' []) (\<lambda>_.
              bindC (fprintf Stdout ''   Given Args: count: %d\<newline>'' [I argc]) (\<lambda>_.
              bindC (fprintf Stdout ''                argv: '' []) (\<lambda>_.
              bindC (print_args argv) (\<lambda>_.
              bindC (fprintf Stdout ''\<newline>'' []) (\<lambda>_.
              bindC (msgUser ''Press any key to continue.'') (\<lambda>_.
              ret (Returned (- 1)))))))) tr)
      else
        let numPorts = 1; portsList = [argv ! 1] in
        (case InitializeSysManager w numPorts portsList True tr of
           (tr1, Inl e) \<Rightarrow> Some (tr1, Inl e)
         | (tr1, Inr initialized) \<Rightarrow>
             if \<not> initialized then
               Some (bindC (fprintf Stdout ''Error: Unable to initialize the system\<newline>'' []) (\<lambda>_.
                     bindC (msgUser ''Press any key to continue.'') (\<lambda>_.
                     ret (Returned (- 2)))) tr1)
             else
               (case check_port_loop w numPorts 0
                       \<lparr>listOfAxes = [], nodeTypesGood = True, accessLvlsGood = True\<rparr> tr1 of
                  (tr2, Inl e) \<Rightarrow> Some (tr2, Inl e)
                | (tr2, Inr v) \<Rightarrow>
                    (case run_or_report w v 0 tr2 of
                       None \<Rightarrow> None
                     | Some (tr3, Inl e) \<Rightarrow> Some (tr3, Inl e)
                     | Some (tr3, Inr returnVal) \<Rightarrow>
                         Some (bindC (teardown w (listOfAxes v)) (\<lambda>_.
                               ret (Completed returnVal)) tr3)))))"

text \<open>
  \<^verbatim>\<open>main\<close>: the \<^verbatim>\<open>try\<close> block, its two handlers, and the last two statements. A \<^verbatim>\<open>return\<close>
  inside the block leaves \<^verbatim>\<open>main\<close> at once. The result is the trace of the run and the
  value \<^verbatim>\<open>main\<close> returns; \<open>None\<close> is a run that never returns.
\<close>

definition main :: "world \<Rightarrow> string list \<Rightarrow> (event list \<times> (exn + int)) option" where
  "main w argv =
     (case main_try w argv [] of
        None \<Rightarrow> None
      | Some (tr, Inr (Returned r)) \<Rightarrow> Some (tr, Inr r)
      | Some (tr, Inr (Completed returnVal)) \<Rightarrow>
          Some (bindC (msgUser ''Press any key to continue.'') (\<lambda>_. ret returnVal) tr)
      | Some (tr, Inl (mnErr TheAddr ErrorCode ErrorMsg)) \<Rightarrow>
          Some (bindC (fprintf Stderr ''Caught error: addr=%d, err=0x%0x\<newline>msg=%s\<newline>''
                         [I TheAddr, I ErrorCode, S ErrorMsg]) (\<lambda>_.
                bindC (fprintf Stdout ''Caught error: addr=%d, err=0x%08x\<newline>msg=%s\<newline>''
                         [I TheAddr, I ErrorCode, S ErrorMsg]) (\<lambda>_.
                bindC (msgUser ''Press any key to continue.'') (\<lambda>_.
                ret (- 3)))) tr)
      | Some (tr, Inl other_exception) \<Rightarrow>
          Some (bindC (fprintf Stderr ''Error generic caught\<newline>'' []) (\<lambda>_.
                bindC (fprintf Stdout ''Generic error caught\<newline>'' []) (\<lambda>_.
                bindC (msgUser ''Press any key to continue.'') (\<lambda>_.
                ret (- 4)))) tr))"

section \<open>lnkAccessLinux.cpp\<close>

subsection \<open>infcCoreTime\<close>

text \<open>
  The branch under \<^verbatim>\<open>#if 1\<close>. The function's state is its static variable
  \<^verbatim>\<open>initial\<close>; its input is what \<^verbatim>\<open>clock_gettime\<close> gives: \<open>None\<close> when it returns -1,
  the time read otherwise. The result is the value returned and the new \<^verbatim>\<open>initial\<close>.
  The \<^verbatim>\<open>double\<close> arithmetic is taken as exact arithmetic on the reals.
\<close>

record timespec =
  tv_sec :: int
  tv_nsec :: int

definition infcCoreTime :: "real \<Rightarrow> timespec option \<Rightarrow> real \<times> real" where
  "infcCoreTime initial clock =
     (case clock of
        None \<Rightarrow> (0, initial)
      | Some now \<Rightarrow>
          let tNow = real_of_int (tv_sec now) * 1000 + real_of_int (tv_nsec now) * (1 / 1000000)
                       - initial;
              initial' = (if initial = 0 then tNow else initial)
          in (tNow, initial'))"

subsection \<open>infcErrCodeStrA\<close>

text \<open>
  The two values of \<^verbatim>\<open>cnErrCode\<close> the function returns, and the third one this file
  names. The enumeration is declared in \<^verbatim>\<open>mnErrors.h\<close>, outside the repository, so the
  code to look up is taken by its 32-bit numeric value, which is what \<^verbatim>\<open>%x\<close> prints.
\<close>

datatype cnErrCode = MN_OK | MN_ERR_BADARG | MN_ERR_NOT_IMPL

definition hex_digit :: "nat \<Rightarrow> char" where
  "hex_digit d = ''0123456789abcdef'' ! d"

text \<open>What \<^verbatim>\<open>%x\<close> prints: lower-case hexadecimal, no leading zeros.\<close>

fun hex :: "nat \<Rightarrow> string" where
  "hex n = (if n < 16 then [hex_digit n] else hex (n div 16) @ [hex_digit (n mod 16)])"

declare hex.simps [simp del]

text \<open>
  \<^verbatim>\<open>snprintf(buf, n, ...)\<close> for the formatted text \<open>s\<close>: what the buffer holds afterwards
  (nothing is written when \<open>n = 0\<close>; otherwise at most \<open>n - 1\<close> characters and the final
  NUL), and the value returned, the number of characters of the whole text.
\<close>

definition snprintf :: "nat \<Rightarrow> string \<Rightarrow> string option \<times> int" where
  "snprintf n s = (if n = 0 then None else Some (take (n - 1) s), int (length s))"

text \<open>\<^verbatim>\<open>maxLen\<close> is a \<^verbatim>\<open>Uint16\<close>; the comparison with the \<^verbatim>\<open>int\<close> \<^verbatim>\<open>nChars\<close> promotes it.\<close>

definition infcErrCodeStrA :: "32 word \<Rightarrow> 16 word \<Rightarrow> cnErrCode \<times> string option" where
  "infcErrCodeStrA lookupCode maxLen =
     (case snprintf (unat maxLen) (''Error: 0x'' @ hex (unat lookupCode)) of
        (resultStr, nChars) \<Rightarrow>
          (if nChars = uint maxLen then MN_OK else MN_ERR_BADARG, resultStr))"

subsection \<open>infcDbgDepth\<close>

text \<open>
  \<^verbatim>\<open>SysInventory\<close> is an array of \<^verbatim>\<open>NET_CONTROLLER_MAX\<close> records; of each record the
  function reads \<^verbatim>\<open>pNCS\<close>: null (\<open>None\<close>), or a state whose serial port answers
  \<^verbatim>\<open>MaxDepth()\<close>. The constant is declared outside the repository and is a parameter;
  so is the type \<^verbatim>\<open>netaddr\<close> of \<^verbatim>\<open>cNum\<close>, taken as an unsigned number. A read outside
  the array is the error \<open>out_of_bounds\<close>.
\<close>

datatype fault = out_of_bounds

definition infcDbgDepth :: "nat \<Rightarrow> int option list \<Rightarrow> nat \<Rightarrow> fault + int" where
  "infcDbgDepth NET_CONTROLLER_MAX SysInventory cNum =
     (if cNum > NET_CONTROLLER_MAX then Inr 0
      else if cNum < length SysInventory then
        (case SysInventory ! cNum of
           Some MaxDepth \<Rightarrow> Inr MaxDepth
         | None \<Rightarrow> Inr 0)
      else Inl out_of_bounds)"

section \<open>Observations of a run\<close>

text \<open>
  The nodes \<^verbatim>\<open>main\<close> checks: it opens one port, so they are the nodes of port 0, in
  enumeration order.
\<close>

definition attached :: "world \<Rightarrow> node list" where
  "attached w = port_Nodes (sys_Ports w 0)"

text \<open>The type test of \<^verbatim>\<open>main\<close>: the node is a ClearPath-SC, basic or advanced.\<close>

definition ClearPath :: "node \<Rightarrow> bool" where
  "ClearPath nd \<longleftrightarrow> node_NodeType nd = CLEARPATH_SC \<or> node_NodeType nd = CLEARPATH_SC_ADV"

text \<open>
  The number of nodes before the first one that fails the type test (all of them when
  none fails): the index of that node.
\<close>

definition checked :: "world \<Rightarrow> nat" where
  "checked w = length (takeWhile ClearPath (attached w))"

text \<open>
  The events by which a run acquires and releases its resources and drives the axes:
  opening the ports, constructing an axis, \<^verbatim>\<open>AxisMain\<close>, deleting an axis, closing the
  ports.
\<close>

definition lifecycle :: "event \<Rightarrow> bool" where
  "lifecycle e =
     (case e of
        Call (PortsOpen n) \<Rightarrow> True
      | Call (new_Axis a) \<Rightarrow> True
      | Call (AxisMain a) \<Rightarrow> True
      | Call PortsClose \<Rightarrow> True
      | Delete a \<Rightarrow> True
      | _ \<Rightarrow> False)"

definition access_check :: "event \<Rightarrow> bool" where
  "access_check e = (case e of Call (AccessLevelIsFull p i) \<Rightarrow> True | _ \<Rightarrow> False)"

definition type_check :: "event \<Rightarrow> bool" where
  "type_check e = (case e of Call (NodeType p i) \<Rightarrow> True | _ \<Rightarrow> False)"

text \<open>The diagnostic of the type test for node \<open>iNode\<close>.\<close>

definition type_error :: "nat \<Rightarrow> event" where
  "type_error iNode =
     Printf Stdout ''---> ERROR: Uh-oh! Node %d is not a ClearPath-SC Motor\<newline>'' [I (int iNode)]"

definition is_type_error :: "event \<Rightarrow> bool" where
  "is_type_error e =
     (case e of
        Printf f fmt args \<Rightarrow>
          fmt = ''---> ERROR: Uh-oh! Node %d is not a ClearPath-SC Motor\<newline>''
      | _ \<Rightarrow> False)"

text \<open>
  The calls that enumerate or query a port or a node: every call but \<^verbatim>\<open>ComHubPort\<close>,
  \<^verbatim>\<open>PortsOpen\<close> and \<^verbatim>\<open>PortsClose\<close>.
\<close>

definition node_query :: "event \<Rightarrow> bool" where
  "node_query e =
     (case e of
        Call (ComHubPort i s) \<Rightarrow> False
      | Call (PortsOpen n) \<Rightarrow> False
      | Call PortsClose \<Rightarrow> False
      | Call c \<Rightarrow> True
      | _ \<Rightarrow> False)"

text \<open>A result of \<^verbatim>\<open>main\<close> with its trace restricted to the events of one kind.\<close>

definition observe :: "(event \<Rightarrow> bool) \<Rightarrow> (event list \<times> 'a) option \<Rightarrow> (event list \<times> 'a) option" where
  "observe P r = map_option (\<lambda>(tr, x). (filter P tr, x)) r"

text \<open>The same library when none of its calls throws.\<close>

definition quiet :: "world \<Rightarrow> world" where
  "quiet w = w\<lparr>throws := \<lambda>_ _. None\<rparr>"

text \<open>
  \<open>sim m m0\<close>: whenever \<open>m\<close> returns a value, \<open>m0\<close> returns the same value with the
  same trace.
\<close>

definition sim :: "'a comp \<Rightarrow> 'a comp \<Rightarrow> bool" where
  "sim m m0 \<longleftrightarrow> (\<forall>tr tr' x. m tr = (tr', Inr x) \<longrightarrow> m0 tr = (tr', Inr x))"

text \<open>Concrete libraries and command lines, on which the properties below are run.\<close>

definition example_node :: "nodeTypes \<Rightarrow> bool \<Rightarrow> node" where
  "example_node t full =
     \<lparr>node_NodeType = t, node_AccessLevelIsFull = full, node_UserID = ''axis'',
      node_FirmwareVersion = ''1.0'', node_HardwareVersion = ''A'', node_SerialNumber = 1,
      node_Model = ''CPM-SCSK''\<rparr>"

definition example_world ::
    "node list \<Rightarrow> (event list \<Rightarrow> drv_call \<Rightarrow> exn option) \<Rightarrow> world" where
  "example_world nodes th =
     \<lparr>sys_Ports = (\<lambda>_. \<lparr>port_NetNumber = 0, port_OpenState = 1, port_Nodes = nodes\<rparr>),
      throws = th\<rparr>"

definition example_argv :: "string list" where
  "example_argv = [''Example-SingleThreaded'', ''/dev/ttyXRUSB0'']"

definition mixed_world :: world where
  "mixed_world =
     example_world [example_node CLEARPATH_SC True, example_node (OTHER_NODE 0) True]
       (\<lambda>_ _. None)"

definition ready_world :: world where
  "ready_world =
     example_world [example_node CLEARPATH_SC True, example_node CLEARPATH_SC_ADV True]
       (\<lambda>_ _. None)"

definition restricted_world :: world where
  "restricted_world =
     example_world [example_node CLEARPATH_SC True, example_node CLEARPATH_SC_ADV False]
       (\<lambda>_ _. None)"

definition three_node_world :: world where
  "three_node_world =
     example_world [example_node CLEARPATH_SC_ADV True, example_node (OTHER_NODE 0) False,
                    example_node CLEARPATH_SC True]
       (\<lambda>_ _. None)"

definition unplugged_world :: world where
  "unplugged_world =
     example_world []
       (\<lambda>_ c. if c = PortsOpen 1 then Some (mnErr 0 1 ''port not found'') else None)"

definition timeout_world :: world where
  "timeout_world =
     example_world [example_node CLEARPATH_SC True]
       (\<lambda>_ c. if c = Ports 0 then Some (mnErr 0 17 ''timeout'') else None)"

definition crashing_world :: world where
  "crashing_world =
     example_world [example_node CLEARPATH_SC True]
       (\<lambda>_ c. if c = Ports 0 then Some other_exception else None)"

definition guarded_world :: world where
  "guarded_world =
     example_world [example_node CLEARPATH_SC True, example_node CLEARPATH_SC_ADV False]
       (\<lambda>tr c. if c = PortsClose \<and> length (filter (\<lambda>e. e = Delete (Axis 0 1)) tr) \<noteq> 1
               then Some other_exception else None)"

definition faulty_world :: world where
  "faulty_world =
     example_world [example_node CLEARPATH_SC True]
       (\<lambda>_ c. if c = AxisMain (Axis 0 0) then Some (mnErr 0 1 ''move failed'') else None)"

section \<open>Runs in which no call throws\<close>

text \<open>The loops are unfolded one round at a time, by the lemmas below.\<close>

declare ComHubPort_loop.simps [simp del] print_node_loop.simps [simp del]
  print_port_loop.simps [simp del] check_node_loop.simps [simp del]
  check_port_loop.simps [simp del]

lemma call_nothrow: "throws w = (\<lambda>_ _. None) \<Longrightarrow> call w c v tr = (tr @ [Call c], Inr v)"
  by (simp add: call_def)

lemmas run_defs = bindC_def ret_def fprintf_def getchar_def delete_def msgUser_def

lemma lifecycle_simps [simp]:
  "lifecycle (Call (new_Axis a))" "lifecycle (Call (AxisMain a))" "lifecycle (Call PortsClose)"
  "lifecycle (Delete a)" "\<not> lifecycle (Printf f fmt args)" "\<not> lifecycle Getchar"
  "\<not> lifecycle (Call (ComHubPort n s))" "lifecycle (Call (PortsOpen n))"
  "\<not> lifecycle (Call (Ports n))" "\<not> lifecycle (Call (NetNumber n))"
  "\<not> lifecycle (Call (OpenState n))" "\<not> lifecycle (Call (NodeCount n))"
  "\<not> lifecycle (Call (Nodes n i))" "\<not> lifecycle (Call (NodeType n i))"
  "\<not> lifecycle (Call (UserID n i))" "\<not> lifecycle (Call (FirmwareVersion n i))"
  "\<not> lifecycle (Call (HardwareVersion n i))" "\<not> lifecycle (Call (SerialNumber n i))"
  "\<not> lifecycle (Call (Model n i))" "\<not> lifecycle (Call (AccessLevelIsFull n i))"
  by (simp_all add: lifecycle_def)

lemma access_check_simps [simp]:
  "access_check (Call (AccessLevelIsFull n i))"
  "\<not> access_check (Call (new_Axis a))" "\<not> access_check (Call (AxisMain a))"
  "\<not> access_check (Call PortsClose)"
  "\<not> access_check (Delete a)" "\<not> access_check (Printf f fmt args)" "\<not> access_check Getchar"
  "\<not> access_check (Call (ComHubPort n s))" "\<not> access_check (Call (PortsOpen n))"
  "\<not> access_check (Call (Ports n))" "\<not> access_check (Call (NetNumber n))"
  "\<not> access_check (Call (OpenState n))" "\<not> access_check (Call (NodeCount n))"
  "\<not> access_check (Call (Nodes n i))" "\<not> access_check (Call (NodeType n i))"
  "\<not> access_check (Call (UserID n i))" "\<not> access_check (Call (FirmwareVersion n i))"
  "\<not> access_check (Call (HardwareVersion n i))" "\<not> access_check (Call (SerialNumber n i))"
  "\<not> access_check (Call (Model n i))"
  by (simp_all add: access_check_def)

lemma type_check_simps [simp]:
  "type_check (Call (NodeType n i))"
  "\<not> type_check (Call (new_Axis a))" "\<not> type_check (Call (AxisMain a))"
  "\<not> type_check (Call PortsClose)"
  "\<not> type_check (Delete a)" "\<not> type_check (Printf f fmt args)" "\<not> type_check Getchar"
  "\<not> type_check (Call (ComHubPort n s))" "\<not> type_check (Call (PortsOpen n))"
  "\<not> type_check (Call (Ports n))" "\<not> type_check (Call (NetNumber n))"
  "\<not> type_check (Call (OpenState n))" "\<not> type_check (Call (NodeCount n))"
  "\<not> type_check (Call (Nodes n i))" "\<not> type_check (Call (AccessLevelIsFull n i))"
  "\<not> type_check (Call (UserID n i))" "\<not> type_check (Call (FirmwareVersion n i))"
  "\<not> type_check (Call (HardwareVersion n i))" "\<not> type_check (Call (SerialNumber n i))"
  "\<not> type_check (Call (Model n i))"
  by (simp_all add: type_check_def)

lemma is_type_error_simps [simp]:
  "is_type_error (type_error i)" "\<not> is_type_error (Call c)" "\<not> is_type_error (Delete a)"
  "\<not> is_type_error Getchar"
  "\<not> is_type_error (Printf f
      ''---> ERROR: Oh snap! Access level is not good for node %u\<newline>'' args)"
  by (simp_all add: is_type_error_def type_error_def)

lemma type_error_kind:
  "\<not> type_check (type_error i)" "\<not> lifecycle (type_error i)" "\<not> access_check (type_error i)"
  by (simp_all add: type_error_def)

lemma check_node_bad:
  assumes "throws w = (\<lambda>_ _. None)" "\<not> ClearPath (port_Nodes myPort ! iNode)"
  shows "snd (check_node w iPort myPort iNode v tr) = Inr (v\<lparr>nodeTypesGood := False\<rparr>)"
    and "filter lifecycle (fst (check_node w iPort myPort iNode v tr)) = filter lifecycle tr"
    and "filter access_check (fst (check_node w iPort myPort iNode v tr)) = filter access_check tr"
  using assms
  by (simp_all add: check_node_def not_ClearPath_def call_nothrow run_defs ClearPath_def
      )

lemma check_node_skip:
  assumes "throws w = (\<lambda>_ _. None)" "\<not> nodeTypesGood v"
  shows "snd (check_node w iPort myPort iNode v tr) = Inr v"
    and "filter lifecycle (fst (check_node w iPort myPort iNode v tr)) = filter lifecycle tr"
    and "filter access_check (fst (check_node w iPort myPort iNode v tr)) = filter access_check tr"
  using assms
  by (simp_all add: check_node_def not_ClearPath_def call_nothrow run_defs ClearPath_def
      )

lemma check_node_good:
  assumes "throws w = (\<lambda>_ _. None)" "ClearPath (port_Nodes myPort ! iNode)" "nodeTypesGood v"
  shows "snd (check_node w iPort myPort iNode v tr) =
           Inr (v\<lparr>listOfAxes := listOfAxes v @ [Axis iPort iNode],
                  accessLvlsGood := accessLvlsGood v
                     \<and> node_AccessLevelIsFull (port_Nodes myPort ! iNode)\<rparr>)"
    and "filter lifecycle (fst (check_node w iPort myPort iNode v tr)) =
           filter lifecycle tr @ [Call (new_Axis (Axis iPort iNode))]"
    and "filter access_check (fst (check_node w iPort myPort iNode v tr)) =
           filter access_check tr @ [Call (AccessLevelIsFull iPort iNode)]"
  using assms
  by (auto simp add: check_node_def not_ClearPath_def call_nothrow run_defs ClearPath_def
      )

lemma bindC_snd: "snd (m tr) = Inr x \<Longrightarrow> bindC m f tr = f x (fst (m tr))"
  by (cases "m tr") (simp add: bindC_def)

lemma check_node_returns:
  assumes "throws w = (\<lambda>_ _. None)"
  shows "\<exists>v'. snd (check_node w iPort myPort iNode v tr) = Inr v'"
  using check_node_bad(1) [OF assms] check_node_skip(1) [OF assms] check_node_good(1) [OF assms]
  by blast

lemma check_node_types:
  assumes "throws w = (\<lambda>_ _. None)"
  shows "filter type_check (fst (check_node w iPort myPort iNode v tr)) =
           filter type_check tr @
           (if node_NodeType (port_Nodes myPort ! iNode) = CLEARPATH_SC_ADV
            then [Call (NodeType iPort iNode)]
            else [Call (NodeType iPort iNode), Call (NodeType iPort iNode)])"
    and "filter is_type_error (fst (check_node w iPort myPort iNode v tr)) =
           filter is_type_error tr @
           (if ClearPath (port_Nodes myPort ! iNode) then [] else [type_error iNode])"
  using assms
  by (auto simp add: check_node_def not_ClearPath_def call_nothrow run_defs ClearPath_def
      type_error_def [symmetric] type_error_kind)

lemma check_node_loop_unfold:
  assumes "throws w = (\<lambda>_ _. None)"
  shows "check_node_loop w iPort myPort iNode v tr =
     (if iNode < length (port_Nodes myPort) then
        bindC (check_node w iPort myPort iNode v)
          (\<lambda>v'. check_node_loop w iPort myPort (Suc iNode) v') (tr @ [Call (NodeCount iPort)])
      else (tr @ [Call (NodeCount iPort)], Inr v))"
  by (subst check_node_loop.simps) (simp add: bindC_def call_nothrow [OF assms] ret_def)

lemma check_node_loop_skip:
  assumes "throws w = (\<lambda>_ _. None)" "\<not> nodeTypesGood v"
  shows "snd (check_node_loop w iPort myPort iNode v tr) = Inr v
       \<and> filter lifecycle (fst (check_node_loop w iPort myPort iNode v tr)) = filter lifecycle tr
       \<and> filter access_check (fst (check_node_loop w iPort myPort iNode v tr))
           = filter access_check tr"
proof (induction "length (port_Nodes myPort) - iNode" arbitrary: iNode tr)
  case 0
  then show ?case
    by (simp add: check_node_loop_unfold [OF assms(1)])
next
  case (Suc k)
  then have lt: "iNode < length (port_Nodes myPort)" and k: "k = length (port_Nodes myPort) - Suc iNode"
    by simp_all
  let ?tr1 = "tr @ [Call (NodeCount iPort)]"
  note n = check_node_skip [OF assms, of iPort myPort iNode ?tr1]
  show ?case
    using Suc.hyps(1) [OF k, of "fst (check_node w iPort myPort iNode v ?tr1)"] lt n
    by (simp add: check_node_loop_unfold [OF assms(1), of iPort myPort iNode] bindC_snd
        )
qed

lemma vars_eqI:
  "listOfAxes a = listOfAxes b \<Longrightarrow> nodeTypesGood a = nodeTypesGood b
    \<Longrightarrow> accessLvlsGood a = accessLvlsGood b \<Longrightarrow> a = (b :: vars)"
  by simp

lemma check_node_loop_good:
  assumes "throws w = (\<lambda>_ _. None)"
  shows "nodeTypesGood v \<Longrightarrow>
     snd (check_node_loop w iPort myPort iNode v tr) =
       Inr (v\<lparr>listOfAxes := listOfAxes v @ map (Axis iPort)
                 [iNode ..< iNode + length (takeWhile ClearPath (drop iNode (port_Nodes myPort)))],
              nodeTypesGood := list_all ClearPath (drop iNode (port_Nodes myPort)),
              accessLvlsGood := accessLvlsGood v \<and> list_all node_AccessLevelIsFull
                 (takeWhile ClearPath (drop iNode (port_Nodes myPort)))\<rparr>)
     \<and> filter lifecycle (fst (check_node_loop w iPort myPort iNode v tr)) =
         filter lifecycle tr @ map (\<lambda>i. Call (new_Axis (Axis iPort i)))
           [iNode ..< iNode + length (takeWhile ClearPath (drop iNode (port_Nodes myPort)))]
     \<and> filter access_check (fst (check_node_loop w iPort myPort iNode v tr)) =
         filter access_check tr @ map (\<lambda>i. Call (AccessLevelIsFull iPort i))
           [iNode ..< iNode + length (takeWhile ClearPath (drop iNode (port_Nodes myPort)))]"
proof (induction "length (port_Nodes myPort) - iNode" arbitrary: iNode tr v)
  case 0
  then show ?case
    by (simp add: check_node_loop_unfold [OF assms(1)])
next
  case (Suc k)
  let ?nodes = "port_Nodes myPort"
  from Suc have lt: "iNode < length ?nodes" and k: "k = length ?nodes - Suc iNode"
    by simp_all
  let ?tr1 = "tr @ [Call (NodeCount iPort)]"
  let ?nd = "?nodes ! iNode"
  have dr: "drop iNode ?nodes = ?nd # drop (Suc iNode) ?nodes"
    using lt by (simp add: Cons_nth_drop_Suc)
  show ?case
  proof (cases "ClearPath ?nd")
    case True
    note n = check_node_good [OF assms True Suc.prems, of iPort ?tr1]
    let ?v1 = "v\<lparr>listOfAxes := listOfAxes v @ [Axis iPort iNode],
                  accessLvlsGood := accessLvlsGood v \<and> node_AccessLevelIsFull ?nd\<rparr>"
    have g: "nodeTypesGood ?v1" using Suc.prems by simp
    note ih = Suc.hyps(1) [OF k g, of "fst (check_node w iPort myPort iNode v ?tr1)"]
    have up: "\<And>m. [iNode ..< Suc (iNode + m)] = iNode # [Suc iNode ..< Suc (iNode + m)]"
      by (simp add: upt_conv_Cons)
    show ?thesis
      using ih lt n True
      by (simp add: check_node_loop_unfold [OF assms(1), of iPort myPort iNode] bindC_snd dr up
          del: upt_Suc)
  next
    case False
    note n = check_node_bad [OF assms False, of iPort v ?tr1]
    have b: "\<not> nodeTypesGood (v\<lparr>nodeTypesGood := False\<rparr>)" by simp
    note sk = check_node_loop_skip [OF assms b, of iPort myPort "Suc iNode"
        "fst (check_node w iPort myPort iNode v ?tr1)"]
    show ?thesis
      using sk lt n False
      by (simp add: check_node_loop_unfold [OF assms(1), of iPort myPort iNode] bindC_snd dr)
  qed
qed

lemma check_node_loop_types:
  assumes "throws w = (\<lambda>_ _. None)"
  shows "(\<exists>v'. snd (check_node_loop w iPort myPort iNode v tr) = Inr v')
     \<and> filter type_check (fst (check_node_loop w iPort myPort iNode v tr)) =
         filter type_check tr @ concat (map (\<lambda>i.
            if node_NodeType (port_Nodes myPort ! i) = CLEARPATH_SC_ADV
            then [Call (NodeType iPort i)]
            else [Call (NodeType iPort i), Call (NodeType iPort i)])
           [iNode ..< length (port_Nodes myPort)])
     \<and> filter is_type_error (fst (check_node_loop w iPort myPort iNode v tr)) =
         filter is_type_error tr @ map type_error
           (filter (\<lambda>i. \<not> ClearPath (port_Nodes myPort ! i)) [iNode ..< length (port_Nodes myPort)])"
proof (induction "length (port_Nodes myPort) - iNode" arbitrary: iNode tr v)
  case 0
  then show ?case
    by (simp add: check_node_loop_unfold [OF assms(1)])
next
  case (Suc k)
  let ?nodes = "port_Nodes myPort"
  from Suc have lt: "iNode < length ?nodes" and k: "k = length ?nodes - Suc iNode"
    by simp_all
  let ?tr1 = "tr @ [Call (NodeCount iPort)]"
  obtain v1 where v1: "snd (check_node w iPort myPort iNode v ?tr1) = Inr v1"
    using check_node_returns [OF assms] by blast
  note n = check_node_types [OF assms, of iPort myPort iNode v ?tr1]
  note ih = Suc.hyps(1) [OF k, of v1 "fst (check_node w iPort myPort iNode v ?tr1)"]
  show ?case
    using ih lt n v1
    by (simp add: check_node_loop_unfold [OF assms(1), of iPort myPort iNode] bindC_snd
        upt_conv_Cons)
qed

lemma print_port_nothrow:
  assumes "throws w = (\<lambda>_ _. None)"
  shows "snd (print_port w iPort myPort tr) = Inr ()"
    and "filter lifecycle (fst (print_port w iPort myPort tr)) = filter lifecycle tr"
  by (simp_all add: print_port_def call_nothrow [OF assms] run_defs)

lemma print_node_nothrow:
  assumes "throws w = (\<lambda>_ _. None)"
  shows "snd (print_node w iPort myPort iNode tr) = Inr ()"
    and "filter lifecycle (fst (print_node w iPort myPort iNode tr)) = filter lifecycle tr"
  by (simp_all add: print_node_def call_nothrow [OF assms] run_defs)

lemma print_node_loop_unfold:
  assumes "throws w = (\<lambda>_ _. None)"
  shows "print_node_loop w iPort myPort iNode tr =
     (if iNode < length (port_Nodes myPort) then
        print_node_loop w iPort myPort (Suc iNode)
          (fst (print_node w iPort myPort iNode (tr @ [Call (NodeCount iPort)])))
      else (tr @ [Call (NodeCount iPort)], Inr ()))"
  by (subst print_node_loop.simps)
    (simp add: call_nothrow [OF assms] ret_def bindC_snd print_node_nothrow(1) [OF assms])

lemma print_node_loop_nothrow:
  assumes "throws w = (\<lambda>_ _. None)"
  shows "snd (print_node_loop w iPort myPort iNode tr) = Inr ()
     \<and> filter lifecycle (fst (print_node_loop w iPort myPort iNode tr)) = filter lifecycle tr"
proof (induction "length (port_Nodes myPort) - iNode" arbitrary: iNode tr)
  case 0
  then show ?case
    by (simp add: print_node_loop_unfold [OF assms])
next
  case (Suc k)
  then have lt: "iNode < length (port_Nodes myPort)" and k: "k = length (port_Nodes myPort) - Suc iNode"
    by simp_all
  show ?case
    using Suc.hyps(1) [OF k] lt
    by (simp add: print_node_loop_unfold [OF assms, of iPort myPort iNode]
        print_node_nothrow(2) [OF assms])
qed

lemma print_port_loop_unfold:
  assumes "throws w = (\<lambda>_ _. None)"
  shows "print_port_loop w numPorts iPort tr =
     (if iPort < unat numPorts then
        print_port_loop w numPorts (Suc iPort)
          (fst (print_node_loop w iPort (sys_Ports w iPort) 0
            (fst (print_port w iPort (sys_Ports w iPort) (tr @ [Call (Ports iPort)])))))
      else (tr, Inr ()))"
  by (subst print_port_loop.simps)
    (simp add: call_nothrow [OF assms] ret_def bindC_snd print_port_nothrow(1) [OF assms]
      print_node_loop_nothrow [OF assms])

lemma print_port_loop_nothrow:
  assumes "throws w = (\<lambda>_ _. None)"
  shows "snd (print_port_loop w numPorts iPort tr) = Inr ()
     \<and> filter lifecycle (fst (print_port_loop w numPorts iPort tr)) = filter lifecycle tr"
proof (induction "unat numPorts - iPort" arbitrary: iPort tr)
  case 0
  then show ?case
    by (simp add: print_port_loop_unfold [OF assms])
next
  case (Suc k)
  then have lt: "iPort < unat numPorts" and k: "k = unat numPorts - Suc iPort"
    by simp_all
  show ?case
    using Suc.hyps(1) [OF k] lt
    by (simp add: print_port_loop_unfold [OF assms, of numPorts iPort]
        print_port_nothrow(2) [OF assms] print_node_loop_nothrow [OF assms])
qed

lemma ComHubPort_loop_quiet:
  assumes hub: "\<And>tr i s. throws w tr (ComHubPort i s) = None"
    and P: "\<And>f fmt args. \<not> P (Printf f fmt args)" "\<And>i s. \<not> P (Call (ComHubPort i s))"
  shows "snd (ComHubPort_loop w numPorts listOfPorts iPort tr) = Inr ()
     \<and> filter P (fst (ComHubPort_loop w numPorts listOfPorts iPort tr)) = filter P tr"
proof (induction "nat (sint numPorts - iPort)" arbitrary: iPort tr)
  case 0
  then have "\<not> iPort < sint numPorts" by simp
  then have "ComHubPort_loop w numPorts listOfPorts iPort tr = (tr, Inr ())"
    by (simp add: ComHubPort_loop.simps ret_def)
  then show ?case by simp
next
  case (Suc k)
  then have lt: "iPort < sint numPorts" and k: "k = nat (sint numPorts - (iPort + 1))"
    by simp_all
  let ?tr1 = "tr @ [Printf Stdout ''Initializing port %d, port number %s\<newline>''
                 [I iPort, S (listOfPorts ! nat iPort)],
               Call (ComHubPort (nat iPort) (listOfPorts ! nat iPort))]"
  have unf: "ComHubPort_loop w numPorts listOfPorts iPort tr =
      ComHubPort_loop w numPorts listOfPorts (iPort + 1) ?tr1"
    using lt by (subst ComHubPort_loop.simps) (simp add: run_defs call_def hub)
  show ?case
    using Suc.hyps(1) [OF k, of ?tr1] by (simp add: unf P)
qed

lemma PortsOpen_try_nothrow:
  assumes "throws w = (\<lambda>_ _. None)"
  shows "snd (PortsOpen_try w numPorts tr) = Inr True"
    and "filter lifecycle (fst (PortsOpen_try w numPorts tr)) =
           filter lifecycle tr @ [Call (PortsOpen (unat numPorts))]"
  by (simp_all add: PortsOpen_try_def call_nothrow [OF assms] run_defs)

lemma InitializeSysManager_nothrow:
  assumes "throws w = (\<lambda>_ _. None)"
  shows "snd (InitializeSysManager w numPorts listOfPorts stats tr) = Inr True"
    and "filter lifecycle (fst (InitializeSysManager w numPorts listOfPorts stats tr))
           = filter lifecycle tr @ [Call (PortsOpen (unat numPorts))]"
proof -
  have hub: "\<And>tr i s. throws w tr (ComHubPort i s) = None" by (simp add: assms)
  note a = ComHubPort_loop_quiet [of w lifecycle numPorts listOfPorts 0 tr, OF hub, simplified]
  note b = PortsOpen_try_nothrow [OF assms, of numPorts
      "fst (ComHubPort_loop w numPorts listOfPorts 0 tr)"]
  note c = print_port_loop_nothrow [OF assms, of numPorts 0
      "fst (PortsOpen_try w numPorts (fst (ComHubPort_loop w numPorts listOfPorts 0 tr)))"]
  show "snd (InitializeSysManager w numPorts listOfPorts stats tr) = Inr True"
    using a b c by (simp add: InitializeSysManager_def bindC_snd ret_def)
  show "filter lifecycle (fst (InitializeSysManager w numPorts listOfPorts stats tr))
           = filter lifecycle tr @ [Call (PortsOpen (unat numPorts))]"
    using a b c by (simp add: InitializeSysManager_def bindC_snd ret_def)
qed

lemma check_port_loop_one:
  assumes "throws w = (\<lambda>_ _. None)"
  shows "check_port_loop w 1 0 v tr =
     check_node_loop w 0 (sys_Ports w 0) 0 v
       (fst (print_port w 0 (sys_Ports w 0) (tr @ [Call (Ports 0)])))"
proof -
  obtain v' where v': "snd (check_node_loop w 0 (sys_Ports w 0) 0 v
       (fst (print_port w 0 (sys_Ports w 0) (tr @ [Call (Ports 0)])))) = Inr v'"
    using check_node_loop_types [OF assms] by blast
  have one: "check_port_loop w 1 (Suc 0) v' tr' = (tr', Inr v')" for tr'
    by (subst check_port_loop.simps) (simp add: ret_def)
  have "check_port_loop w 1 0 v tr =
     (fst (check_node_loop w 0 (sys_Ports w 0) 0 v
       (fst (print_port w 0 (sys_Ports w 0) (tr @ [Call (Ports 0)])))), Inr v')"
    by (subst check_port_loop.simps)
      (simp add: call_nothrow [OF assms] bindC_snd print_port_nothrow(1) [OF assms] v' one)
  also have "\<dots> = check_node_loop w 0 (sys_Ports w 0) 0 v
       (fst (print_port w 0 (sys_Ports w 0) (tr @ [Call (Ports 0)])))"
    using v' by (metis prod.collapse)
  finally show ?thesis .
qed

lemma delete_loop_eq: "delete_loop axes tr = (tr @ map Delete axes, Inr ())"
  by (induction axes arbitrary: tr) (simp_all add: run_defs)

lemma AxisMain_loop_nothrow:
  assumes "throws w = (\<lambda>_ _. None)" "length axes \<le> 65535"
  shows "unat iAxis \<le> length axes \<Longrightarrow>
     AxisMain_loop w axes iAxis tr =
       Some (tr @ map (\<lambda>a. Call (AxisMain a)) (drop (unat iAxis) axes), Inr ())"
proof (induction "length axes - unat iAxis" arbitrary: iAxis tr)
  case 0
  then show ?case
    by (subst AxisMain_loop.simps) simp
next
  case (Suc k)
  then have lt: "unat iAxis < length axes" by simp
  then have "unat iAxis + 1 < 2 ^ 16" using assms(2) by simp
  then have u: "unat (iAxis + 1) = unat iAxis + 1"
    by (simp add: unat_add_lem [THEN iffD1])
  have k: "k = length axes - unat (iAxis + 1)" using Suc.hyps(2) u by simp
  have le: "unat (iAxis + 1) \<le> length axes" using lt u by simp
  show ?case
    using Suc.hyps(1) [OF k le, of "tr @ [Call (AxisMain (axes ! unat iAxis))]"] lt u
    by (subst AxisMain_loop.simps)
      (simp add: call_nothrow [OF assms(1)] Cons_nth_drop_Suc [symmetric])
qed

lemma pairI: "snd p = b \<Longrightarrow> p = (fst p, b)"
  by (cases p) simp

lemma bringup_nothrow:
  assumes nt: "throws w = (\<lambda>_ _. None)"
  shows "snd (check_port_loop w 1 0
            \<lparr>listOfAxes = [], nodeTypesGood = True, accessLvlsGood = True\<rparr> tr) =
          Inr \<lparr>listOfAxes = map (Axis 0) [0 ..< checked w],
               nodeTypesGood = list_all ClearPath (attached w),
               accessLvlsGood = list_all node_AccessLevelIsFull (takeWhile ClearPath (attached w))\<rparr>"
    and "filter lifecycle (fst (check_port_loop w 1 0
            \<lparr>listOfAxes = [], nodeTypesGood = True, accessLvlsGood = True\<rparr> tr)) =
          filter lifecycle tr @ map (\<lambda>i. Call (new_Axis (Axis 0 i))) [0 ..< checked w]"
    and "filter access_check (fst (check_port_loop w 1 0
            \<lparr>listOfAxes = [], nodeTypesGood = True, accessLvlsGood = True\<rparr> tr)) =
          filter access_check tr @ map (\<lambda>i. Call (AccessLevelIsFull 0 i)) [0 ..< checked w]"
  using check_node_loop_good [OF nt, of "\<lparr>listOfAxes = [], nodeTypesGood = True, accessLvlsGood = True\<rparr>"
      0 "sys_Ports w 0" 0 "fst (print_port w 0 (sys_Ports w 0) (tr @ [Call (Ports 0)]))"]
  by (simp_all add: check_port_loop_one [OF nt] attached_def checked_def
      print_port_nothrow(2) [OF nt] print_port_def call_nothrow [OF nt] run_defs access_check_def)

lemma main_nothrow:
  assumes nt: "throws w = (\<lambda>_ _. None)" and argv: "length argv = 2"
    and small: "list_all ClearPath (attached w) \<and> list_all node_AccessLevelIsFull (attached w)
           \<longrightarrow> length (attached w) \<le> 65535"
  shows "\<exists>tr. main w argv =
           Some (tr, Inr (if list_all ClearPath (attached w)
                          then if list_all node_AccessLevelIsFull (attached w) then 0 else - 6
                          else - 5))
       \<and> filter lifecycle tr =
           Call (PortsOpen 1) # map (\<lambda>i. Call (new_Axis (Axis 0 i))) [0 ..< checked w]
           @ (if list_all ClearPath (attached w) \<and> list_all node_AccessLevelIsFull (attached w)
              then map (\<lambda>i. Call (AxisMain (Axis 0 i))) [0 ..< length (attached w)] else [])
           @ map (\<lambda>i. Delete (Axis 0 i)) [0 ..< checked w] @ [Call PortsClose]"
proof -
  let ?init = "\<lparr>listOfAxes = [], nodeTypesGood = True, accessLvlsGood = True\<rparr>"
  let ?v = "\<lparr>listOfAxes = map (Axis 0) [0 ..< checked w],
             nodeTypesGood = list_all ClearPath (attached w),
             accessLvlsGood = list_all node_AccessLevelIsFull (takeWhile ClearPath (attached w))\<rparr>"
  define tr1 where "tr1 = fst (InitializeSysManager w 1 [argv ! Suc 0] True [])"
  define tr2 where "tr2 = fst (check_port_loop w 1 0 ?init tr1)"
  have i: "InitializeSysManager w 1 [argv ! Suc 0] True [] = (tr1, Inr True)"
    unfolding tr1_def by (rule pairI) (rule InitializeSysManager_nothrow(1) [OF nt])
  have l1: "filter lifecycle tr1 = [Call (PortsOpen 1)]"
    unfolding tr1_def by (simp add: InitializeSysManager_nothrow(2) [OF nt])
  have c: "check_port_loop w 1 0 ?init tr1 = (tr2, Inr ?v)"
    unfolding tr2_def by (rule pairI) (rule bringup_nothrow(1) [OF nt])
  have l2: "filter lifecycle tr2 =
      Call (PortsOpen 1) # map (\<lambda>i. Call (new_Axis (Axis 0 i))) [0 ..< checked w]"
    unfolding tr2_def by (simp add: bringup_nothrow(2) [OF nt] l1)
  have m: "main_try w argv [] =
      (case run_or_report w ?v 0 tr2 of
         None \<Rightarrow> None
       | Some (tr3, Inl e) \<Rightarrow> Some (tr3, Inl e)
       | Some (tr3, Inr returnVal) \<Rightarrow>
           Some (bindC (teardown w (listOfAxes ?v)) (\<lambda>_. ret (Completed returnVal)) tr3))"
    by (simp add: main_try_def argv i c)
  have td: "teardown w axes tr3 = (tr3 @ map Delete axes @ [Call PortsClose], Inr ())" for axes tr3
    by (simp add: teardown_def delete_loop_eq call_nothrow [OF nt] run_defs)
  have dl: "map Delete (map (Axis 0) [0 ..< checked w]) = map (\<lambda>i. Delete (Axis 0 i)) [0 ..< checked w]"
    by simp
  have fin: "\<exists>tr. main w argv = Some (tr, Inr r) \<and> filter lifecycle tr = filter lifecycle tr3 @
      map (\<lambda>i. Delete (Axis 0 i)) [0 ..< checked w] @ [Call PortsClose]"
    if "run_or_report w ?v 0 tr2 = Some (tr3, Inr r)" for tr3 r
    by (simp add: main_def m that td run_defs del: upt_Suc map_map) (simp add: comp_def)
  show ?thesis
  proof (cases "list_all ClearPath (attached w)")
    case False
    then have r: "run_or_report w ?v 0 tr2 =
        Some (tr2 @ [Printf Stdout (''\<newline>'' @ [CHR 0x09] @
                 ''FAILURE: Please attach only ClearPath-SC nodes.\<newline>\<newline>'') []], Inr (- 5))"
      by (simp add: run_or_report_def run_defs)
    show ?thesis
      using fin [OF r] False by (simp add: l2)
  next
    case True
    then have tw: "takeWhile ClearPath (attached w) = attached w"
      by (simp add: list_all_iff takeWhile_eq_all_conv)
    have ck: "checked w = length (attached w)" by (simp add: checked_def tw)
    show ?thesis
    proof (cases "list_all node_AccessLevelIsFull (attached w)")
      case False
      then have r: "run_or_report w ?v 0 tr2 =
          Some (tr2 @ [Printf Stdout (''\<newline>'' @ [CHR 0x09] @
                 ''FAILURE: Please get full access on all your nodes.\<newline>\<newline>'') []], Inr (- 6))"
        using True by (simp add: run_or_report_def run_defs tw)
      show ?thesis
        using fin [OF r] True False by (simp add: l2)
    next
      case full: True
      then have len: "length (map (Axis 0) [0 ..< checked w]) \<le> 65535"
        using small True by (simp add: ck)
      have r: "run_or_report w ?v 0 tr2 =
          Some (tr2 @ map (\<lambda>a. Call (AxisMain a)) (map (Axis 0) [0 ..< checked w]), Inr 0)"
        using True full AxisMain_loop_nothrow [OF nt len, of 0 tr2]
        by (simp add: run_or_report_def tw)
      show ?thesis
        using fin [OF r] True full by (simp add: l2 ck comp_def)
    qed
  qed
qed

section \<open>Runs in any library\<close>

lemma simD: "sim m m0 \<Longrightarrow> m tr = (tr', Inr x) \<Longrightarrow> m0 tr = (tr', Inr x)"
  by (simp add: sim_def)

lemma sim_refl: "sim m m"
  by (simp add: sim_def)

lemma sim_call: "throws w0 = (\<lambda>_ _. None) \<Longrightarrow> sim (call w c v) (call w0 c v)"
  by (auto simp: sim_def call_def split: option.splits)

lemma sim_bindC:
  assumes "sim m m0" "\<And>x. sim (f x) (f0 x)"
  shows "sim (bindC m f) (bindC m0 f0)"
  using assms unfolding sim_def bindC_def
  by (auto split: prod.splits sum.splits)

lemma sim_if:
  "(c \<Longrightarrow> sim a a0) \<Longrightarrow> (\<not> c \<Longrightarrow> sim b b0) \<Longrightarrow> sim (if c then a else b) (if c then a0 else b0)"
  by simp

lemma sim_for:
  assumes nt: "throws w0 = (\<lambda>_ _. None)"
    and body: "i < n \<Longrightarrow> sim body body0" and rest: "\<And>x. i < n \<Longrightarrow> sim (rest x) (rest0 x)"
  shows "sim (bindC (call w c n) (\<lambda>k. if i < k then bindC body rest else ret r))
             (bindC (call w0 c n) (\<lambda>k. if i < k then bindC body0 rest0 else ret r))"
proof (cases "i < n")
  case True
  have "sim (bindC body rest) (bindC body0 rest0)"
    by (intro sim_bindC body rest True)
  then show ?thesis
    using True unfolding sim_def
    by (auto simp: bindC_def [of "call w c n"] bindC_def [of "call w0 c n"] call_def nt
        split: option.splits)
next
  case False
  then show ?thesis
    unfolding sim_def
    by (auto simp: bindC_def [of "call w c n"] bindC_def [of "call w0 c n"] call_def nt
        split: option.splits)
qed

lemma print_port_sim:
  assumes nt: "throws w0 = (\<lambda>_ _. None)"
  shows "sim (print_port w iPort myPort) (print_port w0 iPort myPort)"
  unfolding print_port_def by (intro sim_bindC sim_call sim_refl nt)

lemma print_node_sim:
  assumes nt: "throws w0 = (\<lambda>_ _. None)"
  shows "sim (print_node w iPort myPort iNode) (print_node w0 iPort myPort iNode)"
  unfolding print_node_def by (intro sim_bindC sim_call sim_refl nt)

lemma check_node_sim:
  assumes nt: "throws w0 = (\<lambda>_ _. None)"
  shows "sim (check_node w iPort myPort iNode v) (check_node w0 iPort myPort iNode v)"
  unfolding check_node_def not_ClearPath_def
  by (intro sim_bindC sim_call sim_if sim_refl nt)

lemma print_node_loop_eq:
  "print_node_loop w iPort myPort iNode =
     bindC (call w (NodeCount iPort) (length (port_Nodes myPort))) (\<lambda>n.
       if iNode < n then
         bindC (print_node w iPort myPort iNode) (\<lambda>_.
         print_node_loop w iPort myPort (Suc iNode))
       else ret ())"
  by (rule ext) (simp add: print_node_loop.simps)

lemma print_node_loop_sim:
  assumes nt: "throws w0 = (\<lambda>_ _. None)"
  shows "sim (print_node_loop w iPort myPort iNode) (print_node_loop w0 iPort myPort iNode)"
proof (induction "length (port_Nodes myPort) - iNode" arbitrary: iNode)
  case 0
  show ?case
    apply (subst print_node_loop_eq [of w], subst print_node_loop_eq [of w0])
    using 0 by (intro sim_for nt) simp_all
next
  case (Suc k)
  show ?case
    apply (subst print_node_loop_eq [of w], subst print_node_loop_eq [of w0])
    using Suc by (intro sim_for nt print_node_sim Suc.hyps(1)) simp_all
qed

lemma check_node_loop_eq:
  "check_node_loop w iPort myPort iNode v =
     bindC (call w (NodeCount iPort) (length (port_Nodes myPort))) (\<lambda>n.
       if iNode < n then
         bindC (check_node w iPort myPort iNode v) (\<lambda>v'.
         check_node_loop w iPort myPort (Suc iNode) v')
       else ret v)"
  by (rule ext) (simp add: check_node_loop.simps)

lemma check_node_loop_sim:
  assumes nt: "throws w0 = (\<lambda>_ _. None)"
  shows "sim (check_node_loop w iPort myPort iNode v) (check_node_loop w0 iPort myPort iNode v)"
proof (induction "length (port_Nodes myPort) - iNode" arbitrary: iNode v)
  case 0
  show ?case
    apply (subst check_node_loop_eq [of w], subst check_node_loop_eq [of w0])
    using 0 by (intro sim_for nt) simp_all
next
  case (Suc k)
  show ?case
    apply (subst check_node_loop_eq [of w], subst check_node_loop_eq [of w0])
    using Suc by (intro sim_for nt check_node_sim Suc.hyps(1)) simp_all
qed

lemma print_port_loop_eq:
  "print_port_loop w numPorts iPort =
     (if iPort < unat numPorts then
        bindC (call w (Ports iPort) (sys_Ports w iPort)) (\<lambda>myPort.
        bindC (print_port w iPort myPort) (\<lambda>_.
        bindC (print_node_loop w iPort myPort 0) (\<lambda>_.
        print_port_loop w numPorts (Suc iPort))))
      else ret ())"
  by (rule ext) (simp add: print_port_loop.simps)

lemma print_port_loop_sim:
  assumes nt: "throws w0 = (\<lambda>_ _. None)" and ports: "sys_Ports w0 = sys_Ports w"
  shows "sim (print_port_loop w numPorts iPort) (print_port_loop w0 numPorts iPort)"
proof (induction "unat numPorts - iPort" arbitrary: iPort)
  case 0
  then show ?case
    by (subst print_port_loop_eq [of w], subst print_port_loop_eq [of w0]) (simp add: sim_refl)
next
  case (Suc k)
  then have k: "k = unat numPorts - Suc iPort" by simp
  show ?case
    apply (subst print_port_loop_eq [of w], subst print_port_loop_eq [of w0])
    unfolding ports
    by (intro sim_if sim_bindC sim_call sim_refl nt print_port_sim print_node_loop_sim
        Suc.hyps(1) [OF k])
qed

lemma check_port_loop_eq:
  "check_port_loop w numPorts iPort v =
     (if iPort < unat numPorts then
        bindC (call w (Ports iPort) (sys_Ports w iPort)) (\<lambda>myPort.
        bindC (print_port w iPort myPort) (\<lambda>_.
        bindC (check_node_loop w iPort myPort 0 v) (\<lambda>v'.
        check_port_loop w numPorts (Suc iPort) v')))
      else ret v)"
  by (rule ext) (simp add: check_port_loop.simps)

lemma check_port_loop_sim:
  assumes nt: "throws w0 = (\<lambda>_ _. None)" and ports: "sys_Ports w0 = sys_Ports w"
  shows "sim (check_port_loop w numPorts iPort v) (check_port_loop w0 numPorts iPort v)"
proof (induction "unat numPorts - iPort" arbitrary: iPort v)
  case 0
  then show ?case
    by (subst check_port_loop_eq [of w], subst check_port_loop_eq [of w0]) (simp add: sim_refl)
next
  case (Suc k)
  then have k: "k = unat numPorts - Suc iPort" by simp
  show ?case
    apply (subst check_port_loop_eq [of w], subst check_port_loop_eq [of w0])
    unfolding ports
    by (intro sim_if sim_bindC sim_call sim_refl nt print_port_sim check_node_loop_sim
        Suc.hyps(1) [OF k])
qed

lemma ComHubPort_loop_eq:
  "ComHubPort_loop w numPorts listOfPorts iPort =
     (if iPort < sint numPorts then
        bindC (fprintf Stdout ''Initializing port %d, port number %s\<newline>''
                 [I iPort, S (listOfPorts ! nat iPort)]) (\<lambda>_.
        bindC (call w (ComHubPort (nat iPort) (listOfPorts ! nat iPort)) ()) (\<lambda>_.
        ComHubPort_loop w numPorts listOfPorts (iPort + 1)))
      else ret ())"
  by (rule ext) (simp add: ComHubPort_loop.simps)

lemma ComHubPort_loop_sim:
  assumes nt: "throws w0 = (\<lambda>_ _. None)"
  shows "sim (ComHubPort_loop w numPorts listOfPorts iPort)
             (ComHubPort_loop w0 numPorts listOfPorts iPort)"
proof (induction "nat (sint numPorts - iPort)" arbitrary: iPort)
  case 0
  then show ?case
    by (subst ComHubPort_loop_eq [of w], subst ComHubPort_loop_eq [of w0]) (simp add: sim_refl)
next
  case (Suc k)
  then have k: "k = nat (sint numPorts - (iPort + 1))" by simp
  show ?case
    apply (subst ComHubPort_loop_eq [of w], subst ComHubPort_loop_eq [of w0])
    by (intro sim_if sim_bindC sim_call sim_refl nt Suc.hyps(1) [OF k])
qed

lemma PortsOpen_try_sim:
  assumes nt: "throws w0 = (\<lambda>_ _. None)"
  shows "PortsOpen_try w numPorts tr = (tr', Inr True)
     \<Longrightarrow> PortsOpen_try w0 numPorts tr = (tr', Inr True)"
  by (auto simp: PortsOpen_try_def run_defs call_def nt split: option.splits exn.splits)

lemma bindC_Inr:
  "bindC m f tr = (tr', Inr y) \<Longrightarrow> \<exists>tr1 x. m tr = (tr1, Inr x) \<and> f x tr1 = (tr', Inr y)"
  by (auto simp: bindC_def split: prod.splits sum.splits)

lemma bindC_InrE:
  assumes "bindC m f tr = (tr', Inr y)"
  obtains tr1 x where "m tr = (tr1, Inr x)" "f x tr1 = (tr', Inr y)"
  using bindC_Inr [OF assms] by blast

lemma InitializeSysManager_sim:
  assumes nt: "throws w0 = (\<lambda>_ _. None)" and ports: "sys_Ports w0 = sys_Ports w"
    and run: "InitializeSysManager w numPorts listOfPorts stats tr = (tr', Inr True)"
  shows "InitializeSysManager w0 numPorts listOfPorts stats tr = (tr', Inr True)"
proof -
  from run [unfolded InitializeSysManager_def] obtain tr1 u where
    a: "ComHubPort_loop w numPorts listOfPorts 0 tr = (tr1, Inr u)"
    and r1: "bindC (PortsOpen_try w numPorts) (\<lambda>opened.
       if \<not> opened then ret False
       else bindC (if stats then print_port_loop w numPorts 0 else ret ()) (\<lambda>_. ret True)) tr1
        = (tr', Inr True)"
    by (rule bindC_InrE)
  from r1 obtain tr2 opened where
    b': "PortsOpen_try w numPorts tr1 = (tr2, Inr opened)"
    and r2': "(if \<not> opened then ret False
       else bindC (if stats then print_port_loop w numPorts 0 else ret ()) (\<lambda>_. ret True)) tr2
        = (tr', Inr True)"
    by (rule bindC_InrE)
  from r2' have opened: "opened" by (auto simp: ret_def split: if_splits)
  from b' opened have b: "PortsOpen_try w numPorts tr1 = (tr2, Inr True)" by simp
  from r2' opened obtain tr3 u3 where
    c': "(if stats then print_port_loop w numPorts 0 else ret ()) tr2 = (tr3, Inr u3)"
    and "ret True tr3 = (tr', Inr True)"
    by (auto elim: bindC_InrE)
  then have c: "(if stats then print_port_loop w numPorts 0 else ret ()) tr2 = (tr', Inr ())"
    by (simp add: ret_def)
  have c0: "(if stats then print_port_loop w0 numPorts 0 else ret ()) tr2 = (tr', Inr ())"
    using c simD [OF print_port_loop_sim [OF nt ports]] by (auto split: if_splits)
  show ?thesis
    unfolding InitializeSysManager_def
    using simD [OF ComHubPort_loop_sim [OF nt] a] PortsOpen_try_sim [OF nt b] c0
    by (simp add: bindC_def ret_def)
qed

lemma AxisMain_loop_Inr_aux:
  assumes "AxisMain_loop w axes iAxis tr = Some y"
  shows "snd y = Inr u \<longrightarrow> unat iAxis \<le> length axes \<longrightarrow>
     length axes \<le> 65535
     \<and> fst y = tr @ map (\<lambda>a. Call (AxisMain a)) (drop (unat iAxis) axes)"
proof (rule AxisMain_loop.raw_induct [where P = "\<lambda>w axes iAxis tr y.
     snd y = Inr u \<longrightarrow> unat iAxis \<le> length axes \<longrightarrow>
     length axes \<le> 65535
     \<and> fst y = tr @ map (\<lambda>a. Call (AxisMain a)) (drop (unat iAxis) axes)", OF _ assms])
  fix loop :: "world \<Rightarrow> axis list \<Rightarrow> 16 word \<Rightarrow> event list \<Rightarrow> (event list \<times> (exn + unit)) option"
  fix w axes iAxis tr y
  assume ih: "\<And>w axes iAxis tr y. loop w axes iAxis tr = Some y \<Longrightarrow>
     snd y = Inr u \<longrightarrow> unat iAxis \<le> length axes \<longrightarrow>
     length axes \<le> 65535
     \<and> fst y = tr @ map (\<lambda>a. Call (AxisMain a)) (drop (unat iAxis) axes)"
  assume run: "(if unat iAxis < length axes
      then case call w (AxisMain (axes ! unat iAxis)) () tr of
           (tr', Inl e) \<Rightarrow> Some (tr', Inl e)
           | (tr', Inr x) \<Rightarrow> loop w axes (iAxis + 1) tr'
      else Some (tr, Inr ())) = Some y"
  show "snd y = Inr u \<longrightarrow> unat iAxis \<le> length axes \<longrightarrow>
     length axes \<le> 65535
     \<and> fst y = tr @ map (\<lambda>a. Call (AxisMain a)) (drop (unat iAxis) axes)"
  proof (intro impI)
    assume r: "snd y = Inr u" and le: "unat iAxis \<le> length axes"
    show "length axes \<le> 65535
       \<and> fst y = tr @ map (\<lambda>a. Call (AxisMain a)) (drop (unat iAxis) axes)"
    proof (cases "unat iAxis < length axes")
      case False
      have "unat iAxis < 2 ^ 16" using unsigned_less [of iAxis] by simp
      then show ?thesis
        using False le run by auto
    next
      case True
      let ?tr1 = "tr @ [Call (AxisMain (axes ! unat iAxis))]"
      from run True r have rec: "loop w axes (iAxis + 1) ?tr1 = Some y"
        by (auto simp: call_def split: option.splits)
      have "unat (iAxis + 1) = (unat iAxis + 1) mod 2 ^ 16"
        by (simp add: unat_word_ariths)
      then have "unat (iAxis + 1) \<le> unat iAxis + 1"
        using mod_less_eq_dividend [of "unat iAxis + 1" "2 ^ 16"] by simp
      then have le1: "unat (iAxis + 1) \<le> length axes"
        using True by simp
      from ih [OF rec] r le1 have bound: "length axes \<le> 65535"
        and tr: "fst y = ?tr1 @ map (\<lambda>a. Call (AxisMain a)) (drop (unat (iAxis + 1)) axes)"
        by simp_all
      have "unat iAxis + 1 < 2 ^ 16" using True bound by simp
      then have u: "unat (iAxis + 1) = unat iAxis + 1"
        by (simp add: unat_add_lem [THEN iffD1])
      show ?thesis
        using bound tr u True by (simp add: Cons_nth_drop_Suc [symmetric])
    qed
  qed
qed

lemma AxisMain_loop_Inr:
  assumes "AxisMain_loop w axes 0 tr = Some (tr', Inr u)"
  shows "length axes \<le> 65535" and "tr' = tr @ map (\<lambda>a. Call (AxisMain a)) axes"
  using AxisMain_loop_Inr_aux [OF assms, of u] by simp_all

lemma main_try_Completed:
  "main_try w argv tr0 = Some (t, Inr (Completed rv)) \<longleftrightarrow>
     length argv = 2 \<and>
     (\<exists>tr1 tr2 v tr3.
        InitializeSysManager w 1 [argv ! Suc 0] True tr0 = (tr1, Inr True)
      \<and> check_port_loop w 1 0 \<lparr>listOfAxes = [], nodeTypesGood = True, accessLvlsGood = True\<rparr> tr1
          = (tr2, Inr v)
      \<and> run_or_report w v 0 tr2 = Some (tr3, Inr rv)
      \<and> teardown w (listOfAxes v) tr3 = (t, Inr ()))"
  by (auto simp: main_try_def Let_def run_defs
      split: prod.splits sum.splits option.splits if_splits)

lemma main_try_Returned:
  "main_try w argv tr0 = Some (t, Inr (Returned r)) \<Longrightarrow> r = - 1 \<or> r = - 2"
  by (auto simp: main_try_def Let_def run_defs
      split: prod.splits sum.splits option.splits if_splits)

lemma run_or_report_Inr:
  assumes "run_or_report w v 0 tr = Some (tr', Inr rv)"
  shows "(nodeTypesGood v \<and> accessLvlsGood v \<and> rv = 0 \<and> length (listOfAxes v) \<le> 65535
           \<and> tr' = tr @ map (\<lambda>a. Call (AxisMain a)) (listOfAxes v))
       \<or> (\<not> nodeTypesGood v \<and> rv = - 5 \<and> filter lifecycle tr' = filter lifecycle tr)
       \<or> (nodeTypesGood v \<and> \<not> accessLvlsGood v \<and> rv = - 6
           \<and> filter lifecycle tr' = filter lifecycle tr)"
proof (cases "nodeTypesGood v \<and> accessLvlsGood v")
  case True
  with assms obtain u where "AxisMain_loop w (listOfAxes v) 0 tr = Some (tr', Inr u)" and "rv = 0"
    by (auto simp: run_or_report_def split: option.splits prod.splits sum.splits)
  then show ?thesis
    using True AxisMain_loop_Inr by blast
next
  case False
  with assms show ?thesis
    by (auto simp: run_or_report_def run_defs split: if_splits)
qed

lemma teardown_Inr:
  "teardown w axes tr = (tr', Inr u) \<longleftrightarrow>
     throws w (tr @ map Delete axes) PortsClose = None
     \<and> tr' = tr @ map Delete axes @ [Call PortsClose]"
  by (auto simp: teardown_def delete_loop_eq bindC_def call_def split: option.splits)

lemma quiet_simps [simp]:
  "throws (quiet w) = (\<lambda>_ _. None)" "sys_Ports (quiet w) = sys_Ports w"
  "attached (quiet w) = attached w" "checked (quiet w) = checked w"
  by (simp_all add: quiet_def attached_def checked_def)

lemma completed_lifecycle:
  assumes run: "main_try w argv [] = Some (t, Inr (Completed rv))"
  shows "filter lifecycle t =
     Call (PortsOpen 1) # map (\<lambda>i. Call (new_Axis (Axis 0 i))) [0 ..< checked w]
     @ (if rv = 0 then map (\<lambda>i. Call (AxisMain (Axis 0 i))) [0 ..< checked w] else [])
     @ map (\<lambda>i. Delete (Axis 0 i)) [0 ..< checked w] @ [Call PortsClose]"
    and "rv = 0 \<or> rv = - 5 \<or> rv = - 6"
proof -
  let ?init = "\<lparr>listOfAxes = [], nodeTypesGood = True, accessLvlsGood = True\<rparr>"
  from run obtain tr1 tr2 v tr3 where
    i: "InitializeSysManager w 1 [argv ! Suc 0] True [] = (tr1, Inr True)"
    and c: "check_port_loop w 1 0 ?init tr1 = (tr2, Inr v)"
    and r: "run_or_report w v 0 tr2 = Some (tr3, Inr rv)"
    and d: "teardown w (listOfAxes v) tr3 = (t, Inr ())"
    unfolding main_try_Completed by blast
  have nt: "throws (quiet w) = (\<lambda>_ _. None)" and ports: "sys_Ports (quiet w) = sys_Ports w"
    by simp_all
  have i0: "InitializeSysManager (quiet w) 1 [argv ! Suc 0] True [] = (tr1, Inr True)"
    by (rule InitializeSysManager_sim [OF nt ports i])
  have c0: "check_port_loop (quiet w) 1 0 ?init tr1 = (tr2, Inr v)"
    by (rule simD [OF check_port_loop_sim [OF nt ports] c])
  have l1: "filter lifecycle tr1 = [Call (PortsOpen 1)]"
    using InitializeSysManager_nothrow(2) [OF nt, of 1 "[argv ! Suc 0]" True "[]"] i0 by simp
  have v: "listOfAxes v = map (Axis 0) [0 ..< checked w]"
    using bringup_nothrow(1) [OF nt, of tr1] c0 by auto
  have l2: "filter lifecycle tr2 =
      Call (PortsOpen 1) # map (\<lambda>i. Call (new_Axis (Axis 0 i))) [0 ..< checked w]"
    using bringup_nothrow(2) [OF nt, of tr1] c0 l1 by simp
  have t: "t = tr3 @ map Delete (listOfAxes v) @ [Call PortsClose]"
    using d by (simp add: teardown_Inr)
  from run_or_report_Inr [OF r] show "rv = 0 \<or> rv = - 5 \<or> rv = - 6" by blast
  from run_or_report_Inr [OF r] show "filter lifecycle t =
     Call (PortsOpen 1) # map (\<lambda>i. Call (new_Axis (Axis 0 i))) [0 ..< checked w]
     @ (if rv = 0 then map (\<lambda>i. Call (AxisMain (Axis 0 i))) [0 ..< checked w] else [])
     @ map (\<lambda>i. Delete (Axis 0 i)) [0 ..< checked w] @ [Call PortsClose]"
    by (auto simp: t v l2 comp_def simp del: upt_Suc)
qed

lemma main_cases:
  "main w argv = Some (tr, Inr rv) \<longleftrightarrow>
     (\<exists>t. main_try w argv [] = Some (t, Inr (Returned rv)) \<and> tr = t)
   \<or> (\<exists>t. main_try w argv [] = Some (t, Inr (Completed rv))
          \<and> tr = t @ [Printf Stdout ''Press any key to continue.'' [], Getchar])
   \<or> (\<exists>t TheAddr ErrorCode ErrorMsg.
          main_try w argv [] = Some (t, Inl (mnErr TheAddr ErrorCode ErrorMsg)) \<and> rv = - 3
          \<and> tr = t @ [Printf Stderr ''Caught error: addr=%d, err=0x%0x\<newline>msg=%s\<newline>''
                         [I TheAddr, I ErrorCode, S ErrorMsg],
                       Printf Stdout ''Caught error: addr=%d, err=0x%08x\<newline>msg=%s\<newline>''
                         [I TheAddr, I ErrorCode, S ErrorMsg],
                       Printf Stdout ''Press any key to continue.'' [], Getchar])
   \<or> (\<exists>t. main_try w argv [] = Some (t, Inl other_exception) \<and> rv = - 4
          \<and> tr = t @ [Printf Stderr ''Error generic caught\<newline>'' [],
                       Printf Stdout ''Generic error caught\<newline>'' [],
                       Printf Stdout ''Press any key to continue.'' [], Getchar])"
  by (auto simp: main_def run_defs split: option.splits prod.splits sum.splits exn.splits flow.splits)

section \<open>Facts for the properties\<close>

lemma checked_first_mismatch:
  assumes "\<not> list_all ClearPath (attached w)"
  shows "checked w < length (attached w)" and "\<not> ClearPath (attached w ! checked w)"
proof -
  from assms have ne: "takeWhile ClearPath (attached w) \<noteq> attached w"
    by (simp add: list_all_iff takeWhile_eq_all_conv)
  have le: "checked w \<le> length (attached w)"
    unfolding checked_def by (rule length_takeWhile_le)
  show lt: "checked w < length (attached w)"
  proof (rule ccontr)
    assume "\<not> checked w < length (attached w)"
    with le have "length (takeWhile ClearPath (attached w)) = length (attached w)"
      by (simp add: checked_def)
    then have "takeWhile ClearPath (attached w) = attached w"
      by (metis takeWhile_eq_take take_all order_refl)
    with ne show False by simp
  qed
  show "\<not> ClearPath (attached w ! checked w)"
    using lt unfolding checked_def by (rule nth_length_takeWhile)
qed

lemma observe_main:
  "main w argv = Some (tr, r) \<Longrightarrow> observe P (main w argv) = Some (filter P tr, r)"
  by (simp add: observe_def)

lemma bringup_types:
  assumes nt: "throws w = (\<lambda>_ _. None)"
  shows "filter type_check (fst (check_port_loop w 1 0 v tr)) =
         filter type_check tr @ concat (map (\<lambda>i.
            if node_NodeType (attached w ! i) = CLEARPATH_SC_ADV
            then [Call (NodeType 0 i)]
            else [Call (NodeType 0 i), Call (NodeType 0 i)])
           [0 ..< length (attached w)])"
    and "filter is_type_error (fst (check_port_loop w 1 0 v tr)) =
         filter is_type_error tr @ map type_error
           (filter (\<lambda>i. \<not> ClearPath (attached w ! i)) [0 ..< length (attached w)])"
  using check_node_loop_types [OF nt, of 0 "sys_Ports w 0" 0 v
      "fst (print_port w 0 (sys_Ports w 0) (tr @ [Call (Ports 0)]))"]
  by (simp_all add: check_port_loop_one [OF nt] attached_def
      print_port_def call_nothrow [OF nt] run_defs is_type_error_def)

lemma node_query_simps [simp]:
  "\<not> node_query (Printf f fmt args)" "\<not> node_query (Call (ComHubPort i p))"
  "\<not> node_query (Call (PortsOpen n))" "\<not> node_query (Call PortsClose)"
  "\<not> node_query Getchar" "\<not> node_query (Delete a)"
  by (simp_all add: node_query_def)

lemma PortsOpen_try_mnErr:
  assumes "\<And>tr. throws w tr (PortsOpen (unat numPorts)) = Some (mnErr TheAddr ErrorCode ErrorMsg)"
  shows "PortsOpen_try w numPorts tr =
     (tr @ [Printf Stdout ''Opening ports...\<newline>'' [], Call (PortsOpen (unat numPorts)),
            Printf Stderr ''Error - Port setup issue\<newline>'' [],
            Printf Stderr '' Caught error: addr=%d, err=0x%0x\<newline>  msg=%s\<newline>''
              [I TheAddr, I ErrorCode, S ErrorMsg],
            Printf Stdout '' Caught error: addr=%d, err=0x%0x\<newline>  msg=%s\<newline>''
              [I TheAddr, I ErrorCode, S ErrorMsg]],
      Inr False)"
  by (simp add: PortsOpen_try_def run_defs call_def assms)

lemma ComHubPort_loop_one:
  assumes "\<And>tr i s. throws w tr (ComHubPort i s) = None"
  shows "ComHubPort_loop w 1 [p] 0 tr =
     (tr @ [Printf Stdout ''Initializing port %d, port number %s\<newline>'' [I 0, S p],
            Call (ComHubPort 0 p)], Inr ())"
  by (simp add: ComHubPort_loop.simps run_defs call_def assms)

section \<open>Properties of the bring-up sequence\<close>

text \<open>
  C1, as the code has it. When no call throws and some node fails the type test, the
  first such node has index \<open>checked w\<close>; \<^verbatim>\<open>main\<close> constructs an \<^verbatim>\<open>Axis\<close> for each of the
  nodes before it, in order, and for no other node; \<^verbatim>\<open>listOfAxes\<close> at the end of the node
  loop holds exactly these axes (none when the first node fails); \<^verbatim>\<open>AxisMain\<close> is not
  called, the axes are deleted, the ports closed, and \<^verbatim>\<open>main\<close> returns -5.
\<close>

theorem axes_up_to_first_type_mismatch:
  assumes "throws w = (\<lambda>_ _. None)" and "length argv = 2"
    and "\<not> list_all ClearPath (attached w)"
  shows "checked w < length (attached w) \<and> \<not> ClearPath (attached w ! checked w)
     \<and> snd (check_port_loop w 1 0
               \<lparr>listOfAxes = [], nodeTypesGood = True, accessLvlsGood = True\<rparr> tr) =
          Inr \<lparr>listOfAxes = map (Axis 0) [0 ..< checked w], nodeTypesGood = False,
               accessLvlsGood =
                 list_all node_AccessLevelIsFull (takeWhile ClearPath (attached w))\<rparr>
     \<and> observe lifecycle (main w argv) =
          Some (Call (PortsOpen 1) # map (\<lambda>i. Call (new_Axis (Axis 0 i))) [0 ..< checked w]
                  @ map (\<lambda>i. Delete (Axis 0 i)) [0 ..< checked w] @ [Call PortsClose],
                Inr (- 5))"
proof -
  from main_nothrow [OF assms(1,2)] assms(3) obtain tr' where
    "main w argv = Some (tr', Inr (- 5))"
    "filter lifecycle tr' =
       Call (PortsOpen 1) # map (\<lambda>i. Call (new_Axis (Axis 0 i))) [0 ..< checked w]
       @ map (\<lambda>i. Delete (Axis 0 i)) [0 ..< checked w] @ [Call PortsClose]"
    by auto
  then have "observe lifecycle (main w argv) =
          Some (Call (PortsOpen 1) # map (\<lambda>i. Call (new_Axis (Axis 0 i))) [0 ..< checked w]
                  @ map (\<lambda>i. Delete (Axis 0 i)) [0 ..< checked w] @ [Call PortsClose],
                Inr (- 5))"
    by (simp add: observe_def)
  then show ?thesis
    using checked_first_mismatch [OF assms(3)] bringup_nothrow(1) [OF assms(1), of tr] assms(3)
    by simp
qed

text \<open>The property at a ClearPath-SC node followed by a node of another type.\<close>

theorem axes_up_to_first_type_mismatch_witness:
  "\<not> list_all ClearPath (attached mixed_world)
   \<and> checked mixed_world = 1
   \<and> observe lifecycle (main mixed_world example_argv) =
       Some ([Call (PortsOpen 1), Call (new_Axis (Axis 0 0)), Delete (Axis 0 0), Call PortsClose],
             Inr (- 5))"
proof -
  have nt: "throws mixed_world = (\<lambda>_ _. None)"
    by (simp add: mixed_world_def example_world_def)
  have len: "length example_argv = 2" by (simp add: example_argv_def)
  have bad: "\<not> list_all ClearPath (attached mixed_world)"
    by (simp add: mixed_world_def example_world_def example_node_def attached_def ClearPath_def)
  have ck: "checked mixed_world = 1"
    by (simp add: mixed_world_def example_world_def example_node_def attached_def ClearPath_def
        checked_def)
  show ?thesis
    using axes_up_to_first_type_mismatch [OF nt len bad, of "[]"] bad ck by simp
qed

text \<open>
  C1, as it is stated: if any node fails the type test, no \<^verbatim>\<open>Axis\<close> is constructed for any
  node and the list of axes is empty after bring-up. With a ClearPath-SC node at index 0
  and a node of another type at index 1, the axis of node 0 is constructed before node 1
  is looked at: the list of axes holds it, and the run constructs and later deletes it.
\<close>

theorem axis_constructed_despite_type_mismatch:
  "\<not> ClearPath (attached mixed_world ! 1)
   \<and> snd (check_port_loop mixed_world 1 0
            \<lparr>listOfAxes = [], nodeTypesGood = True, accessLvlsGood = True\<rparr> []) =
       Inr \<lparr>listOfAxes = [Axis 0 0], nodeTypesGood = False, accessLvlsGood = True\<rparr>
   \<and> observe lifecycle (main mixed_world example_argv) =
       Some ([Call (PortsOpen 1), Call (new_Axis (Axis 0 0)), Delete (Axis 0 0), Call PortsClose],
             Inr (- 5))"
  by code_simp

text \<open>
  C2, as the code has it. In every library: when \<^verbatim>\<open>main\<close> returns 0, -5 or -6, that is when
  its \<^verbatim>\<open>try\<close> block ran to its end (the nodes were ready, or rejected), the run opened the
  ports, constructed the axes, ran them if it returns 0, then deleted every constructed
  axis once, in the order of construction, and then closed the ports once, as its last
  act on the library.
\<close>

theorem teardown_once_after_try_block:
  assumes "map_option snd (main w argv) = Some (Inr rv)"
    and "rv = 0 \<or> rv = - 5 \<or> rv = - 6"
  shows "observe lifecycle (main w argv) =
     Some (Call (PortsOpen 1) # map (\<lambda>i. Call (new_Axis (Axis 0 i))) [0 ..< checked w]
             @ (if rv = 0 then map (\<lambda>i. Call (AxisMain (Axis 0 i))) [0 ..< checked w] else [])
             @ map (\<lambda>i. Delete (Axis 0 i)) [0 ..< checked w] @ [Call PortsClose],
           Inr rv)"
proof -
  from assms(1) obtain tr where m: "main w argv = Some (tr, Inr rv)"
    by (cases "main w argv") auto
  from m assms(2) obtain t where
    t: "main_try w argv [] = Some (t, Inr (Completed rv))"
    and tr: "tr = t @ [Printf Stdout ''Press any key to continue.'' [], Getchar]"
    unfolding main_cases using main_try_Returned [of w argv "[]"] by fastforce
  show ?thesis
    unfolding observe_main [OF m] tr using completed_lifecycle(1) [OF t] by simp
qed

text \<open>
  The property at a library whose \<^verbatim>\<open>PortsClose\<close> would throw unless the second axis was
  deleted exactly once before.
\<close>

theorem teardown_once_after_try_block_witness:
  "map_option snd (main guarded_world example_argv) = Some (Inr (- 6))
   \<and> observe lifecycle (main guarded_world example_argv) =
       Some ([Call (PortsOpen 1), Call (new_Axis (Axis 0 0)), Call (new_Axis (Axis 0 1)),
              Delete (Axis 0 0), Delete (Axis 0 1), Call PortsClose], Inr (- 6))"
proof -
  have r: "map_option snd (main guarded_world example_argv) = Some (Inr (- 6))"
    by code_simp
  have ck: "checked guarded_world = 2"
    by (simp add: checked_def attached_def guarded_world_def example_world_def example_node_def
        ClearPath_def)
  have up: "[0 ..< 2] = [0, Suc 0]" by (simp add: upt_rec)
  show ?thesis
    using teardown_once_after_try_block [OF r] r by (simp add: ck up)
qed

text \<open>
  C2, as it is stated: teardown runs exactly once on every path of a run that opened the
  ports, also when an exception reaches the top level. With one good node whose
  \<^verbatim>\<open>AxisMain\<close> throws a structured error, the ports were opened and the axis constructed,
  and the run ends with the handler: no axis is deleted and the ports are not closed.
\<close>

theorem no_teardown_after_exception:
  "observe lifecycle (main faulty_world example_argv) =
     Some ([Call (PortsOpen 1), Call (new_Axis (Axis 0 0)), Call (AxisMain (Axis 0 0))],
           Inr (- 3))"
  by code_simp

text \<open>
  C3. When no call throws (and the number of nodes fits the 16-bit counter of the
  \<^verbatim>\<open>AxisMain\<close> loop), \<^verbatim>\<open>AxisMain\<close> is called, once for each axis in order, exactly when
  every node passes the type test and every node has full access, and \<^verbatim>\<open>main\<close> then
  returns 0; otherwise \<^verbatim>\<open>AxisMain\<close> is not called, and \<^verbatim>\<open>main\<close> returns -5 when some node
  fails the type test, whatever the access levels, and -6 when all types are good and
  some node lacks full access.
\<close>

theorem AxisMain_iff_all_checks_pass:
  assumes "throws w = (\<lambda>_ _. None)" and "length argv = 2"
    and "length (attached w) \<le> 65535"
  shows "observe lifecycle (main w argv) =
     Some (Call (PortsOpen 1) # map (\<lambda>i. Call (new_Axis (Axis 0 i))) [0 ..< checked w]
             @ (if list_all ClearPath (attached w) \<and> list_all node_AccessLevelIsFull (attached w)
                then map (\<lambda>i. Call (AxisMain (Axis 0 i))) [0 ..< length (attached w)] else [])
             @ map (\<lambda>i. Delete (Axis 0 i)) [0 ..< checked w] @ [Call PortsClose],
           Inr (if list_all ClearPath (attached w) \<and> list_all node_AccessLevelIsFull (attached w)
                then 0
                else if \<not> list_all ClearPath (attached w) then - 5 else - 6))"
proof -
  from main_nothrow [OF assms(1,2)] assms(3) obtain tr where
    m: "main w argv =
           Some (tr, Inr (if list_all ClearPath (attached w)
                          then if list_all node_AccessLevelIsFull (attached w) then 0 else - 6
                          else - 5))"
    and l: "filter lifecycle tr =
           Call (PortsOpen 1) # map (\<lambda>i. Call (new_Axis (Axis 0 i))) [0 ..< checked w]
           @ (if list_all ClearPath (attached w) \<and> list_all node_AccessLevelIsFull (attached w)
              then map (\<lambda>i. Call (AxisMain (Axis 0 i))) [0 ..< length (attached w)] else [])
           @ map (\<lambda>i. Delete (Axis 0 i)) [0 ..< checked w] @ [Call PortsClose]"
    by blast
  show ?thesis
    unfolding observe_main [OF m] l by simp
qed

text \<open>The property at two ClearPath-SC nodes with full access: both axes run.\<close>

theorem AxisMain_iff_all_checks_pass_witness:
  "length (attached ready_world) \<le> 65535
   \<and> observe lifecycle (main ready_world example_argv) =
       Some ([Call (PortsOpen 1), Call (new_Axis (Axis 0 0)), Call (new_Axis (Axis 0 1)),
              Call (AxisMain (Axis 0 0)), Call (AxisMain (Axis 0 1)),
              Delete (Axis 0 0), Delete (Axis 0 1), Call PortsClose], Inr 0)"
proof -
  have nt: "throws ready_world = (\<lambda>_ _. None)"
    by (simp add: ready_world_def example_world_def)
  have len: "length example_argv = 2" by (simp add: example_argv_def)
  have at: "attached ready_world =
      [example_node CLEARPATH_SC True, example_node CLEARPATH_SC_ADV True]"
    by (simp add: ready_world_def example_world_def attached_def)
  have n: "length (attached ready_world) \<le> 65535" by (simp add: at)
  have ck: "checked ready_world = 2"
    by (simp add: checked_def at example_node_def ClearPath_def)
  have up: "[0 ..< 2] = [0, Suc 0]" by (simp add: upt_rec)
  show ?thesis
    using AxisMain_iff_all_checks_pass [OF nt len n] n
    by (simp add: ck at example_node_def ClearPath_def up)
qed

text \<open>
  C4. When no call throws, every node passes the type test and some node lacks full
  access: an \<^verbatim>\<open>Axis\<close> is constructed for every node, \<^verbatim>\<open>accessLvlsGood\<close> is false after
  the node loop, \<^verbatim>\<open>AxisMain\<close> is never called, the axes are deleted and the ports closed,
  and \<^verbatim>\<open>main\<close> returns -6.
\<close>

theorem access_mismatch_rejected:
  assumes "throws w = (\<lambda>_ _. None)" and "length argv = 2"
    and "list_all ClearPath (attached w)"
    and "\<not> list_all node_AccessLevelIsFull (attached w)"
  shows "snd (check_port_loop w 1 0
               \<lparr>listOfAxes = [], nodeTypesGood = True, accessLvlsGood = True\<rparr> tr) =
          Inr \<lparr>listOfAxes = map (Axis 0) [0 ..< length (attached w)], nodeTypesGood = True,
               accessLvlsGood = False\<rparr>
     \<and> observe lifecycle (main w argv) =
          Some (Call (PortsOpen 1)
                  # map (\<lambda>i. Call (new_Axis (Axis 0 i))) [0 ..< length (attached w)]
                  @ map (\<lambda>i. Delete (Axis 0 i)) [0 ..< length (attached w)] @ [Call PortsClose],
                Inr (- 6))"
proof -
  have tw: "takeWhile ClearPath (attached w) = attached w"
    using assms(3) by (simp add: list_all_iff takeWhile_eq_all_conv)
  have ck: "checked w = length (attached w)" by (simp add: checked_def tw)
  from main_nothrow [OF assms(1,2)] assms(3,4) obtain tr' where
    m: "main w argv = Some (tr', Inr (- 6))"
    and l: "filter lifecycle tr' =
       Call (PortsOpen 1) # map (\<lambda>i. Call (new_Axis (Axis 0 i))) [0 ..< checked w]
       @ map (\<lambda>i. Delete (Axis 0 i)) [0 ..< checked w] @ [Call PortsClose]"
    by auto
  show ?thesis
    unfolding observe_main [OF m] l
    using bringup_nothrow(1) [OF assms(1), of tr] assms(3,4) by (simp add: ck tw)
qed

text \<open>The property at two ClearPath-SC nodes, the second without full access.\<close>

theorem access_mismatch_rejected_witness:
  "list_all ClearPath (attached restricted_world)
   \<and> \<not> list_all node_AccessLevelIsFull (attached restricted_world)
   \<and> observe lifecycle (main restricted_world example_argv) =
       Some ([Call (PortsOpen 1), Call (new_Axis (Axis 0 0)), Call (new_Axis (Axis 0 1)),
              Delete (Axis 0 0), Delete (Axis 0 1), Call PortsClose], Inr (- 6))"
proof -
  have nt: "throws restricted_world = (\<lambda>_ _. None)"
    by (simp add: restricted_world_def example_world_def)
  have len: "length example_argv = 2" by (simp add: example_argv_def)
  have at: "attached restricted_world =
      [example_node CLEARPATH_SC True, example_node CLEARPATH_SC_ADV False]"
    by (simp add: restricted_world_def example_world_def attached_def)
  have a: "list_all ClearPath (attached restricted_world)"
    by (simp add: at example_node_def ClearPath_def)
  have b: "\<not> list_all node_AccessLevelIsFull (attached restricted_world)"
    by (simp add: at example_node_def)
  have up: "[0 ..< 2] = [0, Suc 0]" by (simp add: upt_rec)
  show ?thesis
    using access_mismatch_rejected [OF nt len a b, of "[]"] a b
    by (simp add: at up)
qed

text \<open>
  C5. For every list of at least one port: when \<^verbatim>\<open>PortsOpen\<close> throws a structured error
  (and configuring the ports did not throw), \<^verbatim>\<open>InitializeSysManager\<close> returns false
  without a single call that enumerates or queries a port or a node; and \<^verbatim>\<open>main\<close>, which
  passes one port, reports the port setup error on both streams and returns -2: its
  whole run is the one given.
\<close>

theorem PortsOpen_failure_stops_before_enumeration:
  assumes hub: "\<And>tr i s. throws w tr (ComHubPort i s) = None"
    and po: "\<And>tr. throws w tr (PortsOpen (unat numPorts))
                  = Some (mnErr TheAddr ErrorCode ErrorMsg)"
    and "1 \<le> unat numPorts" and "length listOfPorts = unat numPorts"
  shows "snd (InitializeSysManager w numPorts listOfPorts printNodeStats tr) = Inr False
     \<and> filter node_query (fst (InitializeSysManager w numPorts listOfPorts printNodeStats tr))
         = filter node_query tr
     \<and> (numPorts = 1 \<and> length argv = 2 \<longrightarrow>
          main w argv =
            Some ([Printf Stdout ''Initializing port %d, port number %s\<newline>''
                     [I 0, S (argv ! 1)],
                   Call (ComHubPort 0 (argv ! 1)),
                   Printf Stdout ''Opening ports...\<newline>'' [],
                   Call (PortsOpen 1),
                   Printf Stderr ''Error - Port setup issue\<newline>'' [],
                   Printf Stderr '' Caught error: addr=%d, err=0x%0x\<newline>  msg=%s\<newline>''
                     [I TheAddr, I ErrorCode, S ErrorMsg],
                   Printf Stdout '' Caught error: addr=%d, err=0x%0x\<newline>  msg=%s\<newline>''
                     [I TheAddr, I ErrorCode, S ErrorMsg],
                   Printf Stdout ''Error: Unable to initialize the system\<newline>'' [],
                   Printf Stdout ''Press any key to continue.'' [],
                   Getchar],
                  Inr (- 2)))"
proof -
  define tr1 where "tr1 = fst (ComHubPort_loop w numPorts listOfPorts 0 tr)"
  note a = ComHubPort_loop_quiet [of w node_query numPorts listOfPorts 0 tr, OF hub, simplified]
  have a1: "ComHubPort_loop w numPorts listOfPorts 0 tr = (tr1, Inr ())"
    unfolding tr1_def using a by (intro pairI) simp
  have q1: "filter node_query tr1 = filter node_query tr"
    unfolding tr1_def using a by simp
  have i: "InitializeSysManager w numPorts listOfPorts printNodeStats tr =
      (fst (PortsOpen_try w numPorts tr1), Inr False)"
    by (simp add: InitializeSysManager_def bindC_def a1 PortsOpen_try_mnErr [OF po] ret_def)
  have m: "main w argv =
            Some ([Printf Stdout ''Initializing port %d, port number %s\<newline>''
                     [I 0, S (argv ! 1)],
                   Call (ComHubPort 0 (argv ! 1)),
                   Printf Stdout ''Opening ports...\<newline>'' [],
                   Call (PortsOpen 1),
                   Printf Stderr ''Error - Port setup issue\<newline>'' [],
                   Printf Stderr '' Caught error: addr=%d, err=0x%0x\<newline>  msg=%s\<newline>''
                     [I TheAddr, I ErrorCode, S ErrorMsg],
                   Printf Stdout '' Caught error: addr=%d, err=0x%0x\<newline>  msg=%s\<newline>''
                     [I TheAddr, I ErrorCode, S ErrorMsg],
                   Printf Stdout ''Error: Unable to initialize the system\<newline>'' [],
                   Printf Stdout ''Press any key to continue.'' [],
                   Getchar],
                  Inr (- 2))"
    if one: "numPorts = 1" and argv: "length argv = 2"
  proof -
    have po1: "\<And>tr. throws w tr (PortsOpen (unat (1 :: 32 word)))
                  = Some (mnErr TheAddr ErrorCode ErrorMsg)"
      using po one by simp
    show ?thesis
      by (simp add: main_def main_try_def argv InitializeSysManager_def
          ComHubPort_loop_one [OF hub] PortsOpen_try_mnErr [OF po1] bindC_def ret_def
          fprintf_def getchar_def msgUser_def)
  qed
  show ?thesis
    using q1 m by (simp add: i PortsOpen_try_mnErr [OF po])
qed

text \<open>The property at a library whose \<^verbatim>\<open>PortsOpen\<close> throws ``port not found''.\<close>

theorem PortsOpen_failure_stops_before_enumeration_witness:
  "snd (InitializeSysManager unplugged_world 1 [''/dev/ttyXRUSB0''] True []) = Inr False
   \<and> filter node_query (fst (InitializeSysManager unplugged_world 1 [''/dev/ttyXRUSB0''] True []))
       = []
   \<and> main unplugged_world example_argv =
        Some ([Printf Stdout ''Initializing port %d, port number %s\<newline>''
                 [I 0, S ''/dev/ttyXRUSB0''],
               Call (ComHubPort 0 ''/dev/ttyXRUSB0''),
               Printf Stdout ''Opening ports...\<newline>'' [],
               Call (PortsOpen 1),
               Printf Stderr ''Error - Port setup issue\<newline>'' [],
               Printf Stderr '' Caught error: addr=%d, err=0x%0x\<newline>  msg=%s\<newline>''
                 [I 0, I 1, S ''port not found''],
               Printf Stdout '' Caught error: addr=%d, err=0x%0x\<newline>  msg=%s\<newline>''
                 [I 0, I 1, S ''port not found''],
               Printf Stdout ''Error: Unable to initialize the system\<newline>'' [],
               Printf Stdout ''Press any key to continue.'' [],
               Getchar],
              Inr (- 2))"
proof -
  have hub: "\<And>tr i s. throws unplugged_world tr (ComHubPort i s) = None"
    by (simp add: unplugged_world_def example_world_def)
  have po: "\<And>tr. throws unplugged_world tr (PortsOpen (unat (1 :: 32 word)))
      = Some (mnErr 0 1 ''port not found'')"
    by (simp add: unplugged_world_def example_world_def)
  have n: "1 \<le> unat (1 :: 32 word)" "length [''/dev/ttyXRUSB0''] = unat (1 :: 32 word)"
    by simp_all
  show ?thesis
    using PortsOpen_failure_stops_before_enumeration [OF hub po n, of True "[]" example_argv]
    by (simp add: example_argv_def)
qed

text \<open>
  C6. When no call throws, the node loop of \<^verbatim>\<open>main\<close> asks \<^verbatim>\<open>AccessLevelIsFull\<close> of the
  nodes before the first one that fails the type test, once each, and of no other node:
  not of that node and not of any later one. It asks \<^verbatim>\<open>NodeType\<close> of every node (once
  when the answer is \<^verbatim>\<open>CLEARPATH_SC_ADV\<close>, twice otherwise) and prints the type diagnostic
  for every node that fails the type test.
\<close>

theorem access_check_stops_type_check_continues:
  assumes "throws w = (\<lambda>_ _. None)"
  shows "filter access_check (fst (check_port_loop w 1 0
            \<lparr>listOfAxes = [], nodeTypesGood = True, accessLvlsGood = True\<rparr> tr)) =
          filter access_check tr @ map (\<lambda>i. Call (AccessLevelIsFull 0 i)) [0 ..< checked w]
     \<and> (\<not> list_all ClearPath (attached w) \<longrightarrow>
          checked w < length (attached w) \<and> \<not> ClearPath (attached w ! checked w))
     \<and> filter type_check (fst (check_port_loop w 1 0
            \<lparr>listOfAxes = [], nodeTypesGood = True, accessLvlsGood = True\<rparr> tr)) =
          filter type_check tr @ concat (map (\<lambda>i.
            if node_NodeType (attached w ! i) = CLEARPATH_SC_ADV
            then [Call (NodeType 0 i)]
            else [Call (NodeType 0 i), Call (NodeType 0 i)])
           [0 ..< length (attached w)])
     \<and> filter is_type_error (fst (check_port_loop w 1 0
            \<lparr>listOfAxes = [], nodeTypesGood = True, accessLvlsGood = True\<rparr> tr)) =
          filter is_type_error tr @ map type_error
           (filter (\<lambda>i. \<not> ClearPath (attached w ! i)) [0 ..< length (attached w)])"
  using bringup_nothrow(3) [OF assms] bringup_types [OF assms] checked_first_mismatch
  by blast

text \<open>
  The property at three nodes, the second of another type: the access level of node 0
  only is asked, the type of all three, and the diagnostic names node 1.
\<close>

theorem access_check_stops_type_check_continues_witness:
  "\<not> list_all ClearPath (attached three_node_world)
   \<and> filter access_check (fst (check_port_loop three_node_world 1 0
            \<lparr>listOfAxes = [], nodeTypesGood = True, accessLvlsGood = True\<rparr> [])) =
          [Call (AccessLevelIsFull 0 0)]
   \<and> filter type_check (fst (check_port_loop three_node_world 1 0
            \<lparr>listOfAxes = [], nodeTypesGood = True, accessLvlsGood = True\<rparr> [])) =
          [Call (NodeType 0 0), Call (NodeType 0 1), Call (NodeType 0 1),
           Call (NodeType 0 2), Call (NodeType 0 2)]
   \<and> filter is_type_error (fst (check_port_loop three_node_world 1 0
            \<lparr>listOfAxes = [], nodeTypesGood = True, accessLvlsGood = True\<rparr> [])) =
          [type_error 1]"
proof -
  have nt: "throws three_node_world = (\<lambda>_ _. None)"
    by (simp add: three_node_world_def example_world_def)
  have at: "attached three_node_world =
      [example_node CLEARPATH_SC_ADV True, example_node (OTHER_NODE 0) False,
       example_node CLEARPATH_SC True]"
    by (simp add: three_node_world_def example_world_def attached_def)
  have ck: "checked three_node_world = 1"
    by (simp add: checked_def at example_node_def ClearPath_def)
  have up: "[0 ..< 3] = [0, Suc 0, 2]" by (simp add: upt_rec)
  show ?thesis
    using access_check_stops_type_check_continues [OF nt, of "[]"]
    by (simp add: ck at example_node_def ClearPath_def up)
qed

text \<open>
  C7. In every library: \<^verbatim>\<open>main\<close> returns -3 exactly when a structured error leaves
  the \<^verbatim>\<open>try\<close> block, and its run is then the run up to the throw followed by the error's
  diagnostic on standard error, the diagnostic on standard output, and the final prompt;
  it returns -4 exactly when any other exception leaves the block, with the generic
  report on standard error and on standard output.
\<close>

theorem exceptions_caught_at_top_level:
  "(main w argv = Some (tr, Inr (- 3)) \<longleftrightarrow>
      (\<exists>t TheAddr ErrorCode ErrorMsg.
          main_try w argv [] = Some (t, Inl (mnErr TheAddr ErrorCode ErrorMsg))
        \<and> tr = t @ [Printf Stderr ''Caught error: addr=%d, err=0x%0x\<newline>msg=%s\<newline>''
                       [I TheAddr, I ErrorCode, S ErrorMsg],
                     Printf Stdout ''Caught error: addr=%d, err=0x%08x\<newline>msg=%s\<newline>''
                       [I TheAddr, I ErrorCode, S ErrorMsg],
                     Printf Stdout ''Press any key to continue.'' [], Getchar]))
   \<and> (main w argv = Some (tr, Inr (- 4)) \<longleftrightarrow>
      (\<exists>t. main_try w argv [] = Some (t, Inl other_exception)
        \<and> tr = t @ [Printf Stderr ''Error generic caught\<newline>'' [],
                     Printf Stdout ''Generic error caught\<newline>'' [],
                     Printf Stdout ''Press any key to continue.'' [], Getchar]))"
proof -
  have r: "r \<noteq> - 3 \<and> r \<noteq> - 4" if "main_try w argv [] = Some (t, Inr (Returned r))" for t r
    using main_try_Returned [OF that] by auto
  have c: "r \<noteq> - 3 \<and> r \<noteq> - 4" if "main_try w argv [] = Some (t, Inr (Completed r))" for t r
    using completed_lifecycle(2) [OF that] by auto
  show ?thesis
    unfolding main_cases using r c by auto
qed

text \<open>
  The property at a library whose \<^verbatim>\<open>Ports\<close> throws a structured error, and at one where it
  throws something else.
\<close>

theorem exceptions_caught_at_top_level_witness:
  "main timeout_world example_argv =
     Some ([Printf Stdout ''Initializing port %d, port number %s\<newline>''
              [I 0, S ''/dev/ttyXRUSB0''],
            Call (ComHubPort 0 ''/dev/ttyXRUSB0''),
            Printf Stdout ''Opening ports...\<newline>'' [],
            Call (PortsOpen 1),
            Printf Stdout ''  ... ports are open\<newline>'' [],
            Call (Ports 0),
            Printf Stderr ''Caught error: addr=%d, err=0x%0x\<newline>msg=%s\<newline>''
              [I 0, I 17, S ''timeout''],
            Printf Stdout ''Caught error: addr=%d, err=0x%08x\<newline>msg=%s\<newline>''
              [I 0, I 17, S ''timeout''],
            Printf Stdout ''Press any key to continue.'' [], Getchar], Inr (- 3))
   \<and> main crashing_world example_argv =
     Some ([Printf Stdout ''Initializing port %d, port number %s\<newline>''
              [I 0, S ''/dev/ttyXRUSB0''],
            Call (ComHubPort 0 ''/dev/ttyXRUSB0''),
            Printf Stdout ''Opening ports...\<newline>'' [],
            Call (PortsOpen 1),
            Printf Stdout ''  ... ports are open\<newline>'' [],
            Call (Ports 0),
            Printf Stderr ''Error generic caught\<newline>'' [],
            Printf Stdout ''Generic error caught\<newline>'' [],
            Printf Stdout ''Press any key to continue.'' [], Getchar], Inr (- 4))"
proof -
  let ?t = "[Printf Stdout ''Initializing port %d, port number %s\<newline>''
              [I 0, S ''/dev/ttyXRUSB0''],
            Call (ComHubPort 0 ''/dev/ttyXRUSB0''),
            Printf Stdout ''Opening ports...\<newline>'' [],
            Call (PortsOpen 1),
            Printf Stdout ''  ... ports are open\<newline>'' [],
            Call (Ports 0)]"
  have a: "main_try timeout_world example_argv [] = Some (?t, Inl (mnErr 0 17 ''timeout''))"
    by code_simp
  have b: "main_try crashing_world example_argv [] = Some (?t, Inl other_exception)"
    by code_simp
  from a have "main timeout_world example_argv =
      Some (?t @ [Printf Stderr ''Caught error: addr=%d, err=0x%0x\<newline>msg=%s\<newline>''
                    [I 0, I 17, S ''timeout''],
                  Printf Stdout ''Caught error: addr=%d, err=0x%08x\<newline>msg=%s\<newline>''
                    [I 0, I 17, S ''timeout''],
                  Printf Stdout ''Press any key to continue.'' [], Getchar], Inr (- 3))"
    using exceptions_caught_at_top_level [THEN conjunct1, THEN iffD2] by blast
  moreover from b have "main crashing_world example_argv =
      Some (?t @ [Printf Stderr ''Error generic caught\<newline>'' [],
                  Printf Stdout ''Generic error caught\<newline>'' [],
                  Printf Stdout ''Press any key to continue.'' [], Getchar], Inr (- 4))"
    using exceptions_caught_at_top_level [THEN conjunct2, THEN iffD2] by blast
  ultimately show ?thesis by simp
qed

section \<open>Properties of the operating-system shim\<close>

text \<open>
  C8. The claim: the first call of \<^verbatim>\<open>infcCoreTime\<close> returns zero, and every later call the
  milliseconds since the first. The code subtracts \<^verbatim>\<open>initial\<close> before it sets it: with the
  clock at 1000 s the first call returns 1000000 (the absolute reading), and stores it;
  a call one second later then returns 1000.
\<close>

theorem infcCoreTime_first_call_not_zero:
  "infcCoreTime 0 (Some \<lparr>tv_sec = 1000, tv_nsec = 0\<rparr>) = (1000000, 1000000)
   \<and> infcCoreTime 1000000 (Some \<lparr>tv_sec = 1001, tv_nsec = 0\<rparr>) = (1000, 1000000)"
  by (simp add: infcCoreTime_def)

text \<open>
  C9. \<^verbatim>\<open>infcErrCodeStrA\<close> returns \<^verbatim>\<open>MN_OK\<close> exactly when the length of the formatted text
  equals \<^verbatim>\<open>maxLen\<close>; when the text is strictly shorter than \<^verbatim>\<open>maxLen\<close>, so that all of it
  is in the buffer, the result is \<^verbatim>\<open>MN_ERR_BADARG\<close>.
\<close>

theorem infcErrCodeStrA_OK_iff:
  "(fst (infcErrCodeStrA lookupCode maxLen) = MN_OK
      \<longleftrightarrow> length (''Error: 0x'' @ hex (unat lookupCode)) = unat maxLen)
   \<and> (length (''Error: 0x'' @ hex (unat lookupCode)) < unat maxLen
      \<longrightarrow> infcErrCodeStrA lookupCode maxLen
            = (MN_ERR_BADARG, Some (''Error: 0x'' @ hex (unat lookupCode))))"
proof -
  let ?s = "''Error: 0x'' @ hex (unat lookupCode)"
  have eq: "(int (length ?s) = uint maxLen) = (length ?s = unat maxLen)"
    by (metis nat_int uint_nat)
  have a: "fst (infcErrCodeStrA lookupCode maxLen) = MN_OK \<longleftrightarrow> length ?s = unat maxLen"
    unfolding infcErrCodeStrA_def snprintf_def using eq by (simp split: if_splits)
  have b: "infcErrCodeStrA lookupCode maxLen = (MN_ERR_BADARG, Some ?s)"
    if "length ?s < unat maxLen"
  proof -
    from that have "length ?s \<noteq> unat maxLen" "unat maxLen \<noteq> 0" "length ?s \<le> unat maxLen - 1"
      by simp_all
    then show ?thesis
      unfolding infcErrCodeStrA_def snprintf_def using eq by simp
  qed
  from a b show ?thesis by blast
qed

theorem infcErrCodeStrA_OK_iff_witness:
  "length (''Error: 0x'' @ hex (unat (0x1f :: 32 word))) < unat (64 :: 16 word)
   \<and> infcErrCodeStrA 0x1f 64 = (MN_ERR_BADARG, Some ''Error: 0x1f'')
   \<and> fst (infcErrCodeStrA 0x1f 64) \<noteq> MN_OK"
  using infcErrCodeStrA_OK_iff [of "0x1f" 64] by (simp add: hex.simps hex_digit_def)

text \<open>
  C10. The claim: every \<^verbatim>\<open>cNum\<close> the guard of \<^verbatim>\<open>infcDbgDepth\<close> lets through indexes
  \<^verbatim>\<open>SysInventory\<close> within bounds. The guard is \<^verbatim>\<open>cNum > NET_CONTROLLER_MAX\<close>, so
  \<^verbatim>\<open>cNum = NET_CONTROLLER_MAX\<close> passes it and reads one record past the end of the array.
\<close>

theorem infcDbgDepth_reads_past_end:
  "infcDbgDepth (length SysInventory) SysInventory (length SysInventory) = Inl out_of_bounds"
  by (simp add: infcDbgDepth_def)

end
